theory Spec2Isabelle
  imports Complex_Main
begin

section \<open>Exceptions\<close>

text \<open>
  Every exception the modelled functions raise is a value of \<open>error\<close>; a function that
  can raise returns \<open>error + 'a\<close> with \<open>Inl\<close> for the exception. The constructors that
  carry a string hold the message (or, for \<open>KeyError\<close>, the missing key) of the source.
\<close>

datatype error =
    LinAlgError
  | NotImplementedError string
  | ValueError string
  | KeyError string
  | AssertionError
  | AttributeError
  | IndexError
  | TypeError string
  | RecursionError

section \<open>Definitions: \<open>NumpyBlockBackend.matrix_svd\<close> (backends/numpy.py)\<close>

text \<open>
  \<open>svd_algorithms\<close> is the class attribute of line 26. \<open>scipy.linalg.svd\<close> is a library
  routine: it is the parameter \<open>scipy_svd\<close>, a function from a block to either an
  exception or a decomposition, so that the theorems hold for every behaviour of the
  driver. The module function \<open>_svd_gesvd\<close> (line 200) has the body
  \<^verbatim>\<open>raise NotImplementedError\<close>.
\<close>

definition svd_algorithms :: "string list" where
  "svd_algorithms = [''gesdd'', ''gesvd'', ''robust'', ''robust_silent'']"

definition svd_gesvd :: "'blk \<Rightarrow> error + 'res" where
  "svd_gesvd a = Inl (NotImplementedError [])"

definition matrix_svd :: "('blk \<Rightarrow> error + 'res) \<Rightarrow> 'blk \<Rightarrow> string option \<Rightarrow> error + 'res" where
  "matrix_svd scipy_svd a algorithm =
     (let algorithm = (case algorithm of None \<Rightarrow> ''gesdd'' | Some s \<Rightarrow> s) in
      if algorithm = ''gesdd'' then scipy_svd a
      else if algorithm \<in> set [''robust'', ''robust_silent''] then
        (let silent = (algorithm = ''robust_silent'') in
         case scipy_svd a of
           Inl LinAlgError \<Rightarrow>
             (if \<not> silent then Inl (NotImplementedError []) else svd_gesvd a)
         | r \<Rightarrow> r)
      else if algorithm = ''gesvd'' then svd_gesvd a
      else Inl (ValueError (''SVD algorithm not supported: '' @ algorithm)))"

text \<open>Two concrete drivers for the closed theorems: one that never converges and one
  that returns its argument as all three factors.\<close>

definition diverging_svd :: "int list list \<Rightarrow> error + (int list list \<times> int list list \<times> int list list)" where
  "diverging_svd a = Inl LinAlgError"

definition echo_svd :: "int list list \<Rightarrow> error + (int list list \<times> int list list \<times> int list list)" where
  "echo_svd a = Inr (a, a, a)"

section \<open>Definitions: \<open>block_matrixify\<close> and \<open>block_dematrixify\<close> (backends/numpy.py)\<close>

text \<open>
  A numpy array is its shape and its entries in row-major (C) order; \<open>wellformed\<close> says
  that there are as many entries as the shape asks for. \<open>indices s\<close> lists the
  multi-indices of the shape \<open>s\<close> in that order and \<open>ravel s idx\<close> is the position of the
  entry with multi-index \<open>idx\<close>. \<open>index_of x xs\<close> is the position of \<open>x\<close> in \<open>xs\<close>.
\<close>

record 'a ndarray =
  nd_shape :: "nat list"
  nd_data :: "'a list"

definition wellformed :: "'a ndarray \<Rightarrow> bool" where
  "wellformed a \<longleftrightarrow> length (nd_data a) = prod_list (nd_shape a)"

fun indices :: "nat list \<Rightarrow> nat list list" where
  "indices [] = [[]]"
| "indices (d # ds) = concat (map (\<lambda>i. map ((#) i) (indices ds)) [0..<d])"

fun ravel :: "nat list \<Rightarrow> nat list \<Rightarrow> nat" where
  "ravel (d # ds) (i # idx) = i * prod_list ds + ravel ds idx"
| "ravel _ _ = 0"

fun index_of :: "nat \<Rightarrow> nat list \<Rightarrow> nat" where
  "index_of x [] = 0"
| "index_of x (y # ys) = (if x = y then 0 else Suc (index_of x ys))"

text \<open>
  The numpy routines the two methods call. \<open>np_transpose a axes\<close> raises unless \<open>axes\<close>
  is a permutation of the axes of \<open>a\<close>; axis \<open>k\<close> of the result is axis \<open>axes[k]\<close> of
  \<open>a\<close>. \<open>np_prod\<close> of a tuple of integers is an integer, but of the empty tuple it is the
  float \<open>1.0\<close>; \<open>np_reshape\<close> raises \<open>TypeError\<close> on a shape with a float in it
  (\<open>as_dimensions\<close> reads a shape of integers), \<open>ValueError\<close> when the number of entries
  does not fit, and keeps the entries in their order otherwise.
\<close>

definition np_shape :: "'a ndarray \<Rightarrow> nat list" where
  "np_shape a = nd_shape a"

definition np_transpose :: "'a ndarray \<Rightarrow> nat list \<Rightarrow> error + 'a ndarray" where
  "np_transpose a axes =
     (if length axes \<noteq> length (nd_shape a) then Inl (ValueError ''axes do not match array'')
      else if \<not> list_all (\<lambda>k. k < length (nd_shape a)) axes
        then Inl (ValueError ''axis is out of bounds'')
      else if \<not> distinct axes then Inl (ValueError ''repeated axis in transpose'')
      else
        Inr \<lparr>nd_shape = map ((!) (nd_shape a)) axes,
             nd_data =
               map (\<lambda>idx. nd_data a ! ravel (nd_shape a)
                      (map (\<lambda>j. idx ! index_of j axes) [0..<length axes]))
                 (indices (map ((!) (nd_shape a)) axes))\<rparr>)"

datatype np_number = Int64 nat | Float64 real

fun np_prod :: "nat list \<Rightarrow> np_number" where
  "np_prod [] = Float64 1"
| "np_prod (d # ds) = Int64 (prod_list (d # ds))"

fun as_dimensions :: "np_number list \<Rightarrow> nat list option" where
  "as_dimensions [] = Some []"
| "as_dimensions (Int64 d # rest) = map_option ((#) d) (as_dimensions rest)"
| "as_dimensions (Float64 x # rest) = None"

definition np_reshape :: "'a ndarray \<Rightarrow> np_number list \<Rightarrow> error + 'a ndarray" where
  "np_reshape a newshape =
     (case as_dimensions newshape of
        None \<Rightarrow> Inl (TypeError ''float object cannot be interpreted as an integer'')
      | Some dims \<Rightarrow>
          if prod_list dims \<noteq> length (nd_data a)
          then Inl (ValueError ''cannot reshape array'')
          else Inr \<lparr>nd_shape = dims, nd_data = nd_data a\<rparr>)"

text \<open>
  Modelled from the spec: \<open>inverse_permutation\<close> of the module \<open>misc\<close>, which is not among
  the sources. The spec has the auxiliary data of \<open>matrixify\<close> restore the original axis
  order: entry \<open>j\<close> of the result is the position of \<open>j\<close> in the permutation.
\<close>

definition inverse_permutation :: "nat list \<Rightarrow> nat list" where
  "inverse_permutation perm = map (\<lambda>j. index_of j perm) [0..<length perm]"

text \<open>
  The two methods (lines 114 to 126), and their composition
  \<open>block_dematrixify(*block_matrixify(a, idcs1, idcs2))\<close>.
\<close>

definition block_matrixify ::
  "'a ndarray \<Rightarrow> nat list \<Rightarrow> nat list \<Rightarrow> error + ('a ndarray \<times> (nat list \<times> nat list))" where
  "block_matrixify a idcs1 idcs2 =
     (let permutation = idcs1 @ idcs2 in
      case np_transpose a permutation of
        Inl e \<Rightarrow> Inl e
      | Inr a \<Rightarrow>
          let a_shape = np_shape a;
              matrix_shape = [np_prod (take (length idcs1) a_shape),
                              np_prod (drop (length idcs1) a_shape)]
          in case np_reshape a matrix_shape of
               Inl e \<Rightarrow> Inl e
             | Inr matrix \<Rightarrow> Inr (matrix, (permutation, a_shape)))"

definition block_dematrixify :: "'a ndarray \<Rightarrow> nat list \<times> nat list \<Rightarrow> error + 'a ndarray" where
  "block_dematrixify matrix aux =
     (let (permutation, a_shape) = aux in
      case np_reshape matrix (map Int64 a_shape) of
        Inl e \<Rightarrow> Inl e
      | Inr res \<Rightarrow> np_transpose res (inverse_permutation permutation))"

definition matrixify_roundtrip :: "'a ndarray \<Rightarrow> nat list \<Rightarrow> nat list \<Rightarrow> error + 'a ndarray" where
  "matrixify_roundtrip a idcs1 idcs2 =
     (case block_matrixify a idcs1 idcs2 of
        Inl e \<Rightarrow> Inl e
      | Inr (matrix, aux) \<Rightarrow> block_dematrixify matrix aux)"

section \<open>Definitions: \<open>get_backend\<close> (backends/backend_factory.py)\<close>

text \<open>
  Modelled from the spec: \<open>Symmetry\<close>, \<open>no_symmetry\<close> and \<open>is_abelian\<close> of the module
  \<open>groups\<close>, which is not among the sources. The spec lists the variants (no symmetry,
  the abelian family U(1) and Z_N, the non-abelian family with SU(2), and the product
  combinator) and compares symmetries structurally; \<open>get_backend\<close> reads nothing of a
  symmetry but its equality with \<open>no_symmetry\<close> and its flag \<open>is_abelian\<close>.
\<close>

datatype symmetry =
    NoSymmetry
  | U1Symmetry
  | ZNSymmetry nat
  | SU2Symmetry
  | ProductSymmetry "symmetry list"

definition no_symmetry :: symmetry where
  "no_symmetry = NoSymmetry"

fun is_abelian :: "symmetry \<Rightarrow> bool" where
  "is_abelian NoSymmetry = True"
| "is_abelian U1Symmetry = True"
| "is_abelian (ZNSymmetry n) = True"
| "is_abelian SU2Symmetry = False"
| "is_abelian (ProductSymmetry factors) = list_all is_abelian factors"

text \<open>
  The backend classes the table names, and the table \<open>_backend_lookup\<close> itself (lines
  16 to 46) as nested association lists: the value \<open>None\<close> of an entry is the Python
  \<open>None\<close> of a combination without implementation. The keyword arguments of a table
  entry are the items of its dictionary.
\<close>

datatype backend_cls =
    NoSymmetryNumpyBackend
  | AbelianNumpyBackend
  | NoSymmetryTorchBackend
  | AbelianTorchBackend

type_synonym kwargs = "(string \<times> string) list"

definition backend_lookup :: "(string \<times> (string \<times> (backend_cls \<times> kwargs) option) list) list" where
  "backend_lookup =
     [(''no_symmetry'',
         [(''numpy'', Some (NoSymmetryNumpyBackend, [])),
          (''torch'', Some (NoSymmetryTorchBackend, [])),
          (''tensorflow'', None),
          (''jax'', None),
          (''cpu'', Some (NoSymmetryNumpyBackend, [])),
          (''gpu'', Some (NoSymmetryTorchBackend, [(''device'', ''cuda'')])),
          (''tpu'', None)]),
      (''abelian'',
         [(''numpy'', Some (AbelianNumpyBackend, [])),
          (''torch'', Some (AbelianTorchBackend, [])),
          (''tensorflow'', None),
          (''jax'', None),
          (''cpu'', Some (AbelianNumpyBackend, [])),
          (''gpu'', Some (AbelianTorchBackend, [(''device'', ''cuda'')])),
          (''tpu'', None)]),
      (''non_abelian'',
         [(''numpy'', None),
          (''torch'', None),
          (''tensorflow'', None),
          (''jax'', None),
          (''cpu'', None),
          (''gpu'', None),
          (''tpu'', None)])]"

text \<open>
  A backend instance is an object: its class, the keyword arguments it was constructed
  with, and its identity \<open>backend_id\<close>, which is fresh at every construction. The
  module state is the dictionary \<open>_instantiated_backends\<close> (line 48; entries in
  insertion order) together with the identity the next constructed object gets.
\<close>

record backend =
  backend_class :: backend_cls
  backend_options :: kwargs
  backend_id :: nat

type_synonym backend_key = "string \<times> string \<times> kwargs"

record factory_state =
  instantiated_backends :: "(backend_key \<times> backend) list"
  next_ident :: nat

definition initial_state :: factory_state where
  "initial_state = \<lparr>instantiated_backends = [], next_ident = 0\<rparr>"

text \<open>
  \<open>select_symmetry_backend\<close> is lines 66 to 74 of \<open>get_backend\<close>: the kind given by the
  caller, or the one selected from the symmetry. \<open>get_backend\<close> follows the source line
  by line: the two assertions, the two dictionary lookups (a missing key raises
  \<open>KeyError\<close>), the \<open>NotImplementedError\<close> of a \<open>None\<close> entry, and the cache. It
  returns the result together with the module state after the call.
\<close>

definition select_symmetry_backend :: "symmetry \<Rightarrow> string option \<Rightarrow> string" where
  "select_symmetry_backend symmetry symmetry_backend =
     (case symmetry_backend of
        None \<Rightarrow>
          (if symmetry = no_symmetry then ''no_symmetry''
           else if is_abelian symmetry then ''abelian''
           else ''nonabelian'')
      | Some given \<Rightarrow> given)"

definition get_backend ::
  "symmetry \<Rightarrow> string \<Rightarrow> string option \<Rightarrow> factory_state \<Rightarrow> (error + backend) \<times> factory_state" where
  "get_backend symmetry block_backend symmetry_backend s =
     (if block_backend \<notin> set [''numpy'', ''torch'', ''tensorflow'', ''jax'', ''cpu'', ''gpu'', ''tpu'']
      then (Inl AssertionError, s)
      else
        let symmetry_backend = select_symmetry_backend symmetry symmetry_backend in
        if symmetry_backend \<notin> set [''no_symmetry'', ''abelian'', ''nonabelian'']
        then (Inl AssertionError, s)
        else
          (case map_of backend_lookup symmetry_backend of
             None \<Rightarrow> (Inl (KeyError symmetry_backend), s)
           | Some by_block \<Rightarrow>
               (case map_of by_block block_backend of
                  None \<Rightarrow> (Inl (KeyError block_backend), s)
                | Some None \<Rightarrow>
                    (Inl (NotImplementedError
                       (''Backend not implemented '' @ symmetry_backend @ '' & '' @ block_backend)), s)
                | Some (Some (cls, kwargs)) \<Rightarrow>
                    let key = (symmetry_backend, block_backend, kwargs) in
                    (case map_of (instantiated_backends s) key of
                       None \<Rightarrow>
                         let backend = \<lparr>backend_class = cls, backend_options = kwargs, backend_id = next_ident s\<rparr> in
                         (Inr backend,
                          s\<lparr>instantiated_backends := instantiated_backends s @ [(key, backend)],
                            next_ident := Suc (next_ident s)\<rparr>)
                     | Some backend \<Rightarrow> (Inr backend, s)))))"

text \<open>
  A sequence of calls of \<open>get_backend\<close>, whatever each call returns or raises, and the
  state it leaves.
\<close>

fun get_backend_calls :: "(symmetry \<times> string \<times> string option) list \<Rightarrow> factory_state \<Rightarrow> factory_state" where
  "get_backend_calls [] s = s"
| "get_backend_calls ((symmetry, block_backend, symmetry_backend) # calls) s =
     get_backend_calls calls (snd (get_backend symmetry block_backend symmetry_backend s))"

text \<open>
  In a state with \<open>one_instance_per_key\<close> the cache holds every key once, and the
  objects constructed so far are exactly the cached ones (their identities are
  \<open>0, 1, ...\<close> in the order of construction).
\<close>

definition one_instance_per_key :: "factory_state \<Rightarrow> bool" where
  "one_instance_per_key s \<longleftrightarrow>
     distinct (map fst (instantiated_backends s))
     \<and> map (backend_id \<circ> snd) (instantiated_backends s) = [0..<length (instantiated_backends s)]
     \<and> next_ident s = length (instantiated_backends s)"

text \<open>
  \<open>resolve_backend\<close> is the part of \<open>get_backend\<close> before the cache (lines 65 to 82):
  the exception it raises, or the cache key and the class. It is used in the proofs
  only; \<open>get_backend_resolve\<close> relates it to \<open>get_backend\<close>.
\<close>

definition resolve_backend ::
  "symmetry \<Rightarrow> string \<Rightarrow> string option \<Rightarrow> error + (backend_key \<times> backend_cls)" where
  "resolve_backend symmetry block_backend symmetry_backend =
     (if block_backend \<notin> set [''numpy'', ''torch'', ''tensorflow'', ''jax'', ''cpu'', ''gpu'', ''tpu'']
      then Inl AssertionError
      else
        let symmetry_backend = select_symmetry_backend symmetry symmetry_backend in
        if symmetry_backend \<notin> set [''no_symmetry'', ''abelian'', ''nonabelian'']
        then Inl AssertionError
        else
          (case map_of backend_lookup symmetry_backend of
             None \<Rightarrow> Inl (KeyError symmetry_backend)
           | Some by_block \<Rightarrow>
               (case map_of by_block block_backend of
                  None \<Rightarrow> Inl (KeyError block_backend)
                | Some None \<Rightarrow>
                    Inl (NotImplementedError
                       (''Backend not implemented '' @ symmetry_backend @ '' & '' @ block_backend))
                | Some (Some (cls, kwargs)) \<Rightarrow>
                    Inr ((symmetry_backend, block_backend, kwargs), cls))))"

section \<open>Definitions: sparse operators (linalg/sparse.py)\<close>

text \<open>
  Modelled from the spec: the tensors that serve as vectors (\<open>AbstractTensor\<close> of the
  module \<open>tensors\<close>, which is not among the sources). A vector of the declared vector
  shape is the family of its entries, indexed by a finite type \<open>'i\<close>: the shape is the
  type, so that every vector an operator meets has its shape, as \<open>matvec\<close> requires.
  Entries are complex numbers (a real tensor has entries with imaginary part zero) and
  the arithmetic is exact: rounding is not modelled. \<open>inner a b\<close> is \<open>a.inner(b)\<close>,
  which conjugates \<open>a\<close>, as \<open>block_inner\<close> of the numpy backend does; \<open>tensor_add\<close>,
  \<open>tensor_sub\<close> and \<open>tensor_scale\<close> are \<open>+\<close>, \<open>-\<close> and the product with a scalar.
\<close>

type_synonym 'i tensor = "'i \<Rightarrow> complex"

definition inner :: "('i::finite) tensor \<Rightarrow> 'i tensor \<Rightarrow> complex" where
  "inner a b = (\<Sum>i\<in>UNIV. cnj (a i) * b i)"

definition tensor_add :: "'i tensor \<Rightarrow> 'i tensor \<Rightarrow> 'i tensor" where
  "tensor_add a b = (\<lambda>i. a i + b i)"

definition tensor_sub :: "'i tensor \<Rightarrow> 'i tensor \<Rightarrow> 'i tensor" where
  "tensor_sub a b = (\<lambda>i. a i - b i)"

definition tensor_scale :: "complex \<Rightarrow> 'i tensor \<Rightarrow> 'i tensor" where
  "tensor_scale c a = (\<lambda>i. c * a i)"

text \<open>
  The operator classes. \<open>TenpyLinearOperator f\<close> is an operator that is not a wrapper
  (an instance of any such subclass), given by its \<open>matvec\<close>; the three wrappers hold
  their attributes, \<open>original_operator\<close> first. What \<open>ProjectedTenpyLinearOperator\<close> holds
  is the stored \<open>ortho_vecs\<close>, the result of \<open>gram_schmidt\<close>. None of the classes of
  the module overrides the abstract method \<open>to_matrix\<close>: a value of this type is an
  instance of a subclass that does, with the methods of the module.
\<close>

datatype 'i operator =
    TenpyLinearOperator "'i tensor \<Rightarrow> 'i tensor"
  | SumTenpyLinearOperator "'i operator" "'i operator list"
  | ShiftedTenpyLinearOperator "'i operator" complex
  | ProjectedTenpyLinearOperator "'i operator" "'i tensor list" "complex option"

text \<open>
  The three loops of \<open>ProjectedTenpyLinearOperator.matvec\<close> (lines 224 to 227, 231 to
  236 and 238 to 239), each over the list it is given, and \<open>matvec\<close> for every class;
  the second loop runs over \<open>rev ortho_vecs\<close>.
\<close>

fun form_P_vec :: "('i::finite) tensor list \<Rightarrow> 'i tensor \<Rightarrow> complex list \<Rightarrow> 'i tensor \<times> complex list" where
  "form_P_vec [] res coefficients = (res, coefficients)"
| "form_P_vec (o' # ortho_vecs) res coefficients =
     (let c = inner o' res
      in form_P_vec ortho_vecs (tensor_sub res (tensor_scale c o')) (coefficients @ [c]))"

fun project_again :: "('i::finite) tensor list \<Rightarrow> 'i tensor \<Rightarrow> 'i tensor" where
  "project_again [] res = res"
| "project_again (o' # ortho_vecs) res =
     project_again ortho_vecs (tensor_sub res (tensor_scale (inner o' res) o'))"

fun add_penalty :: "complex \<Rightarrow> (complex \<times> 'i tensor) list \<Rightarrow> 'i tensor \<Rightarrow> 'i tensor" where
  "add_penalty penalty [] res = res"
| "add_penalty penalty ((c, o') # rest) res =
     add_penalty penalty rest (tensor_add res (tensor_scale (penalty * c) o'))"

fun matvec :: "('i::finite) operator \<Rightarrow> 'i tensor \<Rightarrow> 'i tensor" where
  "matvec (TenpyLinearOperator f) vec = f vec"
| "matvec (SumTenpyLinearOperator original_operator more_operators) vec =
     foldl tensor_add (matvec original_operator vec) (map (\<lambda>op. matvec op vec) more_operators)"
| "matvec (ShiftedTenpyLinearOperator original_operator shift) vec =
     tensor_add (matvec original_operator vec) (tensor_scale shift vec)"
| "matvec (ProjectedTenpyLinearOperator original_operator ortho_vecs penalty) vec =
     (let (res, coefficients) = form_P_vec ortho_vecs vec [];
          res = matvec original_operator res;
          res = project_again (rev ortho_vecs) res
      in case penalty of
           None \<Rightarrow> res
         | Some p \<Rightarrow> add_penalty p (zip coefficients ortho_vecs) res)"

text \<open>
  The constructor of \<open>ProjectedTenpyLinearOperator\<close> (lines 210 to 218). The function
  \<open>gram_schmidt\<close> of the module \<open>lanczos\<close> is not among the sources: it is a parameter.
\<close>

definition ProjectedTenpyLinearOperator_init ::
  "('i tensor list \<Rightarrow> 'i tensor list) \<Rightarrow> 'i operator \<Rightarrow> 'i tensor list \<Rightarrow> complex option \<Rightarrow> 'i operator" where
  "ProjectedTenpyLinearOperator_init gram_schmidt original_operator ortho_vecs penalty =
     ProjectedTenpyLinearOperator original_operator (gram_schmidt ortho_vecs) penalty"

text \<open>
  The variant claim C7 compares with: \<open>matvec\<close> of a projected operator with the second
  loop in forward order. \<open>remove_component\<close> is the body of that loop.
\<close>

definition matvec_forward_order ::
  "('i::finite) operator \<Rightarrow> 'i tensor list \<Rightarrow> complex option \<Rightarrow> 'i tensor \<Rightarrow> 'i tensor" where
  "matvec_forward_order original_operator ortho_vecs penalty vec =
     (let (res, coefficients) = form_P_vec ortho_vecs vec [];
          res = matvec original_operator res;
          res = project_again ortho_vecs res
      in case penalty of
           None \<Rightarrow> res
         | Some p \<Rightarrow> add_penalty p (zip coefficients ortho_vecs) res)"

definition remove_component :: "('i::finite) tensor \<Rightarrow> 'i tensor \<Rightarrow> 'i tensor" where
  "remove_component o' res = tensor_sub res (tensor_scale (inner o' res) o')"

text \<open>
  \<open>TenpyLinearOperatorWrapper.unwrapped\<close> (lines 134 to 148). \<open>original_operator\<close> reads
  the attribute; an operator that is not a wrapper has neither it nor the method
  \<open>unwrapped\<close>, so the call \<open>parent.unwrapped()\<close> raises \<open>AttributeError\<close> on it.
  \<open>unwrap_loop\<close> is the \<open>for\<close> loop with the number of iterations left and the method
  the call \<open>parent.unwrapped()\<close> dispatches to. On a wrapper that call is \<open>unwrapped\<close>
  itself, with \<open>recursive=True\<close> by default: the calls nest, and the first argument of
  \<open>unwrapped\<close> is the number of nested calls the interpreter's stack still allows
  (\<open>RecursionError\<close> beyond it).
\<close>

fun original_operator :: "'i operator \<Rightarrow> 'i operator option" where
  "original_operator (TenpyLinearOperator f) = None"
| "original_operator (SumTenpyLinearOperator original more_operators) = Some original"
| "original_operator (ShiftedTenpyLinearOperator original shift) = Some original"
| "original_operator (ProjectedTenpyLinearOperator original ortho_vecs penalty) = Some original"

fun unwrap_loop :: "('op \<Rightarrow> error + 'op) \<Rightarrow> nat \<Rightarrow> 'op \<Rightarrow> error + 'op" where
  "unwrap_loop call_unwrapped 0 parent =
     Inl (ValueError ''maximum recursion depth for unwrapping reached'')"
| "unwrap_loop call_unwrapped (Suc n) parent =
     (case call_unwrapped parent of
        Inr p \<Rightarrow> unwrap_loop call_unwrapped n p
      | Inl AttributeError \<Rightarrow> Inr parent
      | Inl e \<Rightarrow> Inl e)"

fun unwrapped :: "nat \<Rightarrow> 'i operator \<Rightarrow> bool \<Rightarrow> error + 'i operator" where
  "unwrapped 0 self recursive =
     (case original_operator self of
        None \<Rightarrow> Inl AttributeError
      | Some parent \<Rightarrow> Inl RecursionError)"
| "unwrapped (Suc depth) self recursive =
     (case original_operator self of
        None \<Rightarrow> Inl AttributeError
      | Some parent \<Rightarrow>
          if \<not> recursive then Inr parent
          else unwrap_loop (\<lambda>p. unwrapped depth p True) 10000 parent)"

text \<open>
  For the statements about \<open>unwrapped\<close>: the operator at the end of the chain of
  \<open>original_operator\<close> references, the number of wrappers around it, and the chain of
  \<open>n\<close> shifted operators around an operator.
\<close>

fun innermost :: "'i operator \<Rightarrow> 'i operator" where
  "innermost (TenpyLinearOperator f) = TenpyLinearOperator f"
| "innermost (SumTenpyLinearOperator original more_operators) = innermost original"
| "innermost (ShiftedTenpyLinearOperator original shift) = innermost original"
| "innermost (ProjectedTenpyLinearOperator original ortho_vecs penalty) = innermost original"

fun wrapper_count :: "'i operator \<Rightarrow> nat" where
  "wrapper_count (TenpyLinearOperator f) = 0"
| "wrapper_count (SumTenpyLinearOperator original more_operators) = Suc (wrapper_count original)"
| "wrapper_count (ShiftedTenpyLinearOperator original shift) = Suc (wrapper_count original)"
| "wrapper_count (ProjectedTenpyLinearOperator original ortho_vecs penalty) = Suc (wrapper_count original)"

fun shifted_chain :: "nat \<Rightarrow> 'i operator \<Rightarrow> 'i operator" where
  "shifted_chain 0 base = base"
| "shifted_chain (Suc n) base = ShiftedTenpyLinearOperator (shifted_chain n base) 1"

text \<open>
  Concrete inputs for the closed theorems: vectors with three entries, the unit vectors
  among them, and the operator that exchanges the first two entries.
\<close>

datatype axis3 = X0 | X1 | X2

instantiation axis3 :: finite
begin
instance
proof
  have all: "(UNIV :: axis3 set) = {X0, X1, X2}"
    using axis3.exhaust by auto
  show "finite (UNIV :: axis3 set)"
    unfolding all by simp
qed
end

definition swap01 :: "axis3 tensor \<Rightarrow> axis3 tensor" where
  "swap01 v = (\<lambda>i. case i of X0 \<Rightarrow> v X1 | X1 \<Rightarrow> v X0 | X2 \<Rightarrow> v X2)"

definition unit_vec :: "axis3 \<Rightarrow> axis3 tensor" where
  "unit_vec k = (\<lambda>i. if i = k then 1 else 0)"

section \<open>Definitions: constructing a \<open>TensorLinearOperator\<close> (linalg/sparse.py)\<close>

text \<open>
  Modelled from the spec: a \<open>Tensor\<close> (module \<open>tensors\<close>, not among the sources) as
  \<open>__init__\<close> reads it: its ordered legs, a label or \<open>None\<close> for each leg, and its dtype;
  \<open>num_legs\<close> is the number of legs. The type of a leg is a parameter.
\<close>

datatype dtype = float32 | float64 | complex64 | complex128

record 'leg tensor_data =
  legs :: "'leg list"
  labels :: "string option list"
  dtype :: dtype

definition num_legs :: "'leg tensor_data \<Rightarrow> nat" where
  "num_legs tensor = length (legs tensor)"

text \<open>Indexing of a Python list: negative indices count from the end, and an index
  out of range raises \<open>IndexError\<close>.\<close>

definition py_index :: "'a list \<Rightarrow> int \<Rightarrow> error + 'a" where
  "py_index xs i =
     (if 0 \<le> i \<and> i < int (length xs) then Inr (xs ! nat i)
      else if - int (length xs) \<le> i \<and> i < 0 then Inr (xs ! nat (int (length xs) + i))
      else Inl IndexError)"

text \<open>
  The method \<open>__init__\<close> (lines 84 to 93), which runs on an instance once it has been
  created. The argument \<open>which_leg\<close> is an integer or a label. The methods
  \<open>can_contract_with\<close> of a leg and \<open>get_leg_idx\<close> of a tensor are not among the
  sources: they are parameters, and the theorems hold for every such pair. The result
  is the exception raised, or the attributes \<open>__init__\<close> sets; \<open>tlo_vector_shape\<close> holds
  the arguments of \<open>Shape\<close>.
\<close>

datatype leg_ref = LegIndex int | LegLabel string

record 'leg tensor_linear_operator =
  tlo_which_leg :: int
  tlo_other_leg :: int
  tlo_tensor :: "'leg tensor_data"
  tlo_vector_shape :: "'leg list \<times> string option"
  tlo_dtype :: dtype

definition TensorLinearOperator_init ::
  "('leg \<Rightarrow> 'leg \<Rightarrow> bool) \<Rightarrow> ('leg tensor_data \<Rightarrow> leg_ref \<Rightarrow> error + int)
   \<Rightarrow> 'leg tensor_data \<Rightarrow> leg_ref \<Rightarrow> error + 'leg tensor_linear_operator" where
  "TensorLinearOperator_init can_contract_with get_leg_idx tensor which_leg =
     (if num_legs tensor > 2 then Inl (ValueError ''Expected a two-leg tensor'')
      else
        case py_index (legs tensor) 0 of
          Inl e \<Rightarrow> Inl e
        | Inr leg0 \<Rightarrow>
        (case py_index (legs tensor) 1 of
          Inl e \<Rightarrow> Inl e
        | Inr leg1 \<Rightarrow>
        if \<not> can_contract_with leg0 leg1 then Inl (ValueError ''Expected contractible legs'')
        else
          (case get_leg_idx tensor which_leg of
            Inl e \<Rightarrow> Inl e
          | Inr which_leg \<Rightarrow>
          let other_leg = 1 - which_leg in
          (case py_index (legs tensor) other_leg of
            Inl e \<Rightarrow> Inl e
          | Inr leg \<Rightarrow>
          (case py_index (labels tensor) other_leg of
            Inl e \<Rightarrow> Inl e
          | Inr label \<Rightarrow>
            Inr \<lparr>tlo_which_leg = which_leg, tlo_other_leg = other_leg, tlo_tensor = tensor,
                 tlo_vector_shape = ([leg], label), tlo_dtype = dtype tensor\<rparr>)))))"

text \<open>
  The call \<open>TensorLinearOperator(tensor, which_leg)\<close>. \<open>TenpyLinearOperator\<close> declares
  \<open>matvec\<close> and \<open>to_matrix\<close> with \<open>@abstractmethod\<close> (lines 42 to 59), and the body of
  \<open>TensorLinearOperator\<close> (lines 84 to 100) defines \<open>__init__\<close>, \<open>matvec\<close> and \<open>adjoint\<close>.
  A class with an abstract method left cannot be instantiated: the call raises
  \<open>TypeError\<close> before \<open>__init__\<close> runs. Otherwise the result is that of \<open>__init__\<close>.
\<close>

definition TenpyLinearOperator_abstractmethods :: "string list" where
  "TenpyLinearOperator_abstractmethods = [''matvec'', ''to_matrix'']"

definition TensorLinearOperator_methods :: "string list" where
  "TensorLinearOperator_methods = [''__init__'', ''matvec'', ''adjoint'']"

definition abstractmethods_left :: "string list \<Rightarrow> string list \<Rightarrow> string list" where
  "abstractmethods_left inherited defined = filter (\<lambda>m. m \<notin> set defined) inherited"

definition TensorLinearOperator_new ::
  "('leg \<Rightarrow> 'leg \<Rightarrow> bool) \<Rightarrow> ('leg tensor_data \<Rightarrow> leg_ref \<Rightarrow> error + int)
   \<Rightarrow> 'leg tensor_data \<Rightarrow> leg_ref \<Rightarrow> error + 'leg tensor_linear_operator" where
  "TensorLinearOperator_new can_contract_with get_leg_idx tensor which_leg =
     (if abstractmethods_left TenpyLinearOperator_abstractmethods TensorLinearOperator_methods \<noteq> []
      then Inl (TypeError
        ''Cannot instantiate abstract class TensorLinearOperator with abstract method to_matrix'')
      else TensorLinearOperator_init can_contract_with get_leg_idx tensor which_leg)"

text \<open>
  Modelled from the spec: a leg with its symmetry, sectors, multiplicities and duality
  flag, \<open>can_contract_with\<close> (true iff the other leg has the same symmetry, the same
  sectors, the same multiplicities and the opposite duality flag) and \<open>get_leg_idx\<close> (an
  integer axis, negative ones counted from the end, or a label resolved by exact match;
  a lookup failure otherwise). They are the concrete arguments of the closed theorems.
\<close>

record leg =
  leg_symmetry :: symmetry
  sectors :: "int list list"
  multiplicities :: "nat list"
  is_dual :: bool

definition can_contract_with :: "leg \<Rightarrow> leg \<Rightarrow> bool" where
  "can_contract_with a b \<longleftrightarrow>
     leg_symmetry a = leg_symmetry b \<and> sectors a = sectors b \<and> multiplicities a = multiplicities b \<and> is_dual a \<noteq> is_dual b"

definition get_leg_idx :: "'leg tensor_data \<Rightarrow> leg_ref \<Rightarrow> error + int" where
  "get_leg_idx tensor which_leg =
     (case which_leg of
        LegIndex i \<Rightarrow>
          (if 0 \<le> i \<and> i < int (num_legs tensor) then Inr i
           else if - int (num_legs tensor) \<le> i \<and> i < 0 then Inr (int (num_legs tensor) + i)
           else Inl IndexError)
      | LegLabel l \<Rightarrow>
          (case find (\<lambda>k. labels tensor ! k = Some l) [0..<length (labels tensor)] of
             None \<Rightarrow> Inl IndexError
           | Some k \<Rightarrow> Inr (int k)))"

definition leg_b :: leg where
  "leg_b = \<lparr>leg_symmetry = U1Symmetry, sectors = [[0], [1]], multiplicities = [2, 1], is_dual = False\<rparr>"

definition leg_b_dual :: leg where
  "leg_b_dual = \<lparr>leg_symmetry = U1Symmetry, sectors = [[0], [1]], multiplicities = [2, 1], is_dual = True\<rparr>"

section \<open>Theorems: \<open>matrix_svd\<close>\<close>

lemma matrix_svd_gesdd: "matrix_svd svd a (Some ''gesdd'') = svd a"
  by (simp add: matrix_svd_def)

lemma matrix_svd_None: "matrix_svd svd a None = svd a"
  by (simp add: matrix_svd_def)

lemma matrix_svd_gesvd: "matrix_svd svd a (Some ''gesvd'') = Inl (NotImplementedError [])"
  by (simp add: matrix_svd_def svd_gesvd_def)

lemma matrix_svd_robust_caught:
  assumes "alg = ''robust'' \<or> alg = ''robust_silent''" and "svd a = Inl LinAlgError"
  shows "matrix_svd svd a (Some alg) = Inl (NotImplementedError [])"
  using assms by (auto simp: matrix_svd_def svd_gesvd_def)

lemma matrix_svd_robust_through:
  assumes "alg = ''robust'' \<or> alg = ''robust_silent''" and "svd a \<noteq> Inl LinAlgError"
  shows "matrix_svd svd a (Some alg) = svd a"
  using assms by (auto simp: matrix_svd_def split: sum.splits error.splits)

text \<open>
  Claim C1, as the code has it. With \<open>'robust'\<close> or \<open>'robust_silent'\<close> a \<open>LinAlgError\<close>
  of the default driver is caught, but no fallback decomposition is returned: in
  \<open>'robust'\<close> mode the handler itself raises \<open>NotImplementedError\<close> (the place of the
  warning), in \<open>'robust_silent'\<close> mode the fallback \<open>_svd_gesvd\<close> raises it. When the
  default driver succeeds, or fails with another exception, its outcome is returned
  unchanged. With \<open>'gesdd'\<close> or \<open>None\<close> every outcome of the default driver, a
  numerical failure included, reaches the caller unmodified; with \<open>'gesvd'\<close> the call
  always signals \<open>NotImplementedError\<close>.
\<close>

theorem matrix_svd_robust_not_implemented:
  "((alg = ''robust'' \<or> alg = ''robust_silent'') \<longrightarrow> svd a = Inl LinAlgError \<longrightarrow>
      matrix_svd svd a (Some alg) = Inl (NotImplementedError []))
   \<and> ((alg = ''robust'' \<or> alg = ''robust_silent'') \<longrightarrow> svd a \<noteq> Inl LinAlgError \<longrightarrow>
      matrix_svd svd a (Some alg) = svd a)
   \<and> matrix_svd svd a (Some ''gesdd'') = svd a
   \<and> matrix_svd svd a None = svd a
   \<and> matrix_svd svd a (Some ''gesvd'') = Inl (NotImplementedError [])"
  using matrix_svd_robust_caught [of alg svd a] matrix_svd_robust_through [of alg svd a]
  by (simp only: matrix_svd_gesdd matrix_svd_None matrix_svd_gesvd) blast

theorem matrix_svd_robust_not_implemented_witness:
  "diverging_svd [[1, 2], [3, 4]] = Inl LinAlgError
   \<and> matrix_svd diverging_svd [[1, 2], [3, 4]] (Some ''robust'') = Inl (NotImplementedError [])
   \<and> echo_svd [[1, 2], [3, 4]] \<noteq> Inl LinAlgError
   \<and> matrix_svd echo_svd [[1, 2], [3, 4]] (Some ''robust_silent'')
       = Inr ([[1, 2], [3, 4]], [[1, 2], [3, 4]], [[1, 2], [3, 4]])
   \<and> matrix_svd diverging_svd [[1, 2], [3, 4]] None = Inl LinAlgError"
  using matrix_svd_robust_not_implemented [of "''robust''" diverging_svd "[[1, 2], [3, 4]]"]
    matrix_svd_robust_not_implemented [of "''robust_silent''" echo_svd "[[1, 2], [3, 4]]"]
  by (simp add: diverging_svd_def echo_svd_def)

text \<open>
  Claim C1 as stated fails: the default driver does not converge on the block, the
  algorithm is \<open>'robust_silent'\<close> (or \<open>'robust'\<close>), and the call ends in
  \<open>NotImplementedError\<close> instead of returning a decomposition.
\<close>

theorem matrix_svd_robust_counterexample:
  "diverging_svd [[1, 2], [3, 4]] = Inl LinAlgError
   \<and> matrix_svd diverging_svd [[1, 2], [3, 4]] (Some ''robust_silent'') = Inl (NotImplementedError [])
   \<and> matrix_svd diverging_svd [[1, 2], [3, 4]] (Some ''robust'') = Inl (NotImplementedError [])"
  by (simp add: matrix_svd_def svd_gesvd_def diverging_svd_def)

text \<open>
  Claim C8. An algorithm name outside \<open>svd_algorithms\<close> makes \<open>matrix_svd\<close> raise
  \<open>ValueError\<close> whatever the driver would do on the block (the result does not depend on
  \<open>svd\<close>), and \<open>None\<close> selects \<open>'gesdd'\<close>, the plain call of the default driver.
\<close>

theorem matrix_svd_unsupported_algorithm:
  "(alg \<notin> set svd_algorithms \<longrightarrow>
      matrix_svd svd a (Some alg) = Inl (ValueError (''SVD algorithm not supported: '' @ alg)))
   \<and> matrix_svd svd a None = matrix_svd svd a (Some ''gesdd'')
   \<and> matrix_svd svd a None = svd a"
  by (simp add: matrix_svd_def svd_algorithms_def)

theorem matrix_svd_unsupported_algorithm_witness:
  "''lapack'' \<notin> set svd_algorithms
   \<and> matrix_svd echo_svd [[1, 2], [3, 4]] (Some ''lapack'')
       = Inl (ValueError ''SVD algorithm not supported: lapack'')
   \<and> matrix_svd echo_svd [[1, 2], [3, 4]] None
       = Inr ([[1, 2], [3, 4]], [[1, 2], [3, 4]], [[1, 2], [3, 4]])"
  using matrix_svd_unsupported_algorithm [of "''lapack''" echo_svd "[[1, 2], [3, 4]]"]
  by (simp add: svd_algorithms_def echo_svd_def matrix_svd_gesdd)

section \<open>Theorems: \<open>block_matrixify\<close> and \<open>block_dematrixify\<close>\<close>

subsection \<open>Row-major indexing\<close>

lemma length_indices: "length (indices s) = prod_list s"
  by (induction s) (simp_all add: length_concat comp_def sum_list_triv)

lemma concat_blocks_nth:
  assumes "\<And>i. i < d \<Longrightarrow> length (f i) = P" and "k < d * P"
  shows "concat (map f [0..<d]) ! k = f (k div P) ! (k mod P)"
  using assms
proof (induction d)
  case 0
  then show ?case by simp
next
  case (Suc d)
  have blocks: "map length (map f [0..<d]) = map (\<lambda>_. P) [0..<d]"
    using Suc.prems(1) by simp
  have len: "length (concat (map f [0..<d])) = d * P"
    unfolding length_concat blocks by (simp add: sum_list_triv)
  show ?case
  proof (cases "k < d * P")
    case True
    with Suc show ?thesis by (simp add: nth_append len)
  next
    case False
    then have ge: "d * P \<le> k" by simp
    from Suc.prems(2) have "k < d * P + P" by simp
    with ge obtain r where k: "k = d * P + r" and r: "r < P"
      by (metis add_less_cancel_left le_Suc_ex)
    then have "k div P = d" and "k mod P = k - d * P"
      by simp_all
    with False show ?thesis by (simp add: nth_append len)
  qed
qed

lemma nth_indices_Cons:
  assumes "k < d * prod_list ds"
  shows "indices (d # ds) ! k = (k div prod_list ds) # (indices ds ! (k mod prod_list ds))"
proof -
  from assms have pos: "0 < prod_list ds" by (cases "prod_list ds") simp_all
  have "indices (d # ds) ! k
      = map ((#) (k div prod_list ds)) (indices ds) ! (k mod prod_list ds)"
    unfolding indices.simps
    by (rule concat_blocks_nth) (simp_all add: length_indices assms)
  also have "\<dots> = (k div prod_list ds) # (indices ds ! (k mod prod_list ds))"
    using pos by (simp add: length_indices)
  finally show ?thesis .
qed

lemma ravel_indices: "k < prod_list s \<Longrightarrow> ravel s (indices s ! k) = k"
proof (induction s arbitrary: k)
  case Nil
  then show ?case by simp
next
  case (Cons d ds)
  from Cons.prems have k: "k < d * prod_list ds" by simp
  then have pos: "0 < prod_list ds" by (cases "prod_list ds") simp_all
  then have "k mod prod_list ds < prod_list ds" by simp
  with Cons.IH have "ravel ds (indices ds ! (k mod prod_list ds)) = k mod prod_list ds" .
  then show ?case by (simp add: nth_indices_Cons [OF k] del: indices.simps)
qed

lemma indices_in_bounds: "k < prod_list s \<Longrightarrow> list_all2 (<) (indices s ! k) s"
proof (induction s arbitrary: k)
  case Nil
  then show ?case by simp
next
  case (Cons d ds)
  from Cons.prems have k: "k < d * prod_list ds" by simp
  then have pos: "0 < prod_list ds" by (cases "prod_list ds") simp_all
  then have "k mod prod_list ds < prod_list ds" by simp
  with Cons.IH have "list_all2 (<) (indices ds ! (k mod prod_list ds)) ds" .
  moreover from k have "k div prod_list ds < d"
    by (simp add: less_mult_imp_div_less)
  ultimately show ?case by (simp add: nth_indices_Cons [OF k] del: indices.simps)
qed

lemma ravel_less: "list_all2 (<) idx s \<Longrightarrow> ravel s idx < prod_list s"
proof (induction idx s rule: list_all2_induct)
  case Nil
  then show ?case by simp
next
  case (Cons i idx d ds)
  have "i * prod_list ds + ravel ds idx < i * prod_list ds + prod_list ds"
    using Cons.IH by simp
  also have "\<dots> = Suc i * prod_list ds" by simp
  also have "\<dots> \<le> d * prod_list ds"
    using Cons.hyps(1) by (intro mult_le_mono1) simp
  finally show ?case by simp
qed

lemma indices_ravel: "list_all2 (<) idx s \<Longrightarrow> indices s ! ravel s idx = idx"
proof (induction idx s rule: list_all2_induct)
  case Nil
  then show ?case by simp
next
  case (Cons i idx d ds)
  let ?P = "prod_list ds"
  have r: "ravel ds idx < ?P" by (rule ravel_less [OF Cons.hyps(2)])
  have "i * ?P + ravel ds idx < i * ?P + ?P" using r by simp
  also have "\<dots> = Suc i * ?P" by simp
  also have "\<dots> \<le> d * ?P"
    using Cons.hyps(1) by (intro mult_le_mono1) simp
  finally have k: "i * ?P + ravel ds idx < d * ?P" .
  from r have "(i * ?P + ravel ds idx) div ?P = i" and "(i * ?P + ravel ds idx) mod ?P = ravel ds idx"
    by simp_all
  with Cons.IH show ?case
    by (simp add: nth_indices_Cons [OF k] del: indices.simps)
qed

lemma data_by_index:
  assumes "wellformed a"
  shows "map (\<lambda>idx. nd_data a ! ravel (nd_shape a) idx) (indices (nd_shape a)) = nd_data a"
proof (rule nth_equalityI)
  show "length (map (\<lambda>idx. nd_data a ! ravel (nd_shape a) idx) (indices (nd_shape a)))
      = length (nd_data a)"
    using assms by (simp add: length_indices wellformed_def)
next
  fix k
  assume "k < length (map (\<lambda>idx. nd_data a ! ravel (nd_shape a) idx) (indices (nd_shape a)))"
  then have "k < prod_list (nd_shape a)" by (simp add: length_indices)
  then show "map (\<lambda>idx. nd_data a ! ravel (nd_shape a) idx) (indices (nd_shape a)) ! k = nd_data a ! k"
    by (simp add: length_indices ravel_indices)
qed

subsection \<open>Permutations of the axes\<close>

lemma index_of_less: "x \<in> set xs \<Longrightarrow> index_of x xs < length xs"
  by (induction xs) auto

lemma nth_index_of: "x \<in> set xs \<Longrightarrow> xs ! index_of x xs = x"
  by (induction xs) auto

lemma index_of_nth: "distinct xs \<Longrightarrow> k < length xs \<Longrightarrow> index_of (xs ! k) xs = k"
proof (induction xs arbitrary: k)
  case Nil
  then show ?case by simp
next
  case (Cons x xs)
  then show ?case by (cases k) auto
qed

lemma permutation_length:
  assumes "distinct p" and "set p = {0..<n}"
  shows "length p = n"
  using distinct_card [OF assms(1)] assms(2) by simp

lemma inverse_permutation_nth:
  assumes "distinct p" and "set p = {0..<n}"
  shows "length (inverse_permutation p) = n"
    and "j < n \<Longrightarrow> inverse_permutation p ! j < n"
    and "j < n \<Longrightarrow> p ! (inverse_permutation p ! j) = j"
    and "k < n \<Longrightarrow> inverse_permutation p ! (p ! k) = k"
proof -
  have len: "length p = n" by (rule permutation_length [OF assms])
  show "length (inverse_permutation p) = n"
    by (simp add: inverse_permutation_def len)
  show "inverse_permutation p ! j < n" if "j < n"
    using that assms(2) index_of_less [of j p] by (simp add: inverse_permutation_def len)
  show "p ! (inverse_permutation p ! j) = j" if "j < n"
    using that assms(2) nth_index_of [of j p] by (simp add: inverse_permutation_def len)
  show "inverse_permutation p ! (p ! k) = k" if "k < n"
  proof -
    from that len have "p ! k \<in> set p" by simp
    with assms(2) have "p ! k < n" by simp
    with that show ?thesis
      by (simp add: inverse_permutation_def len index_of_nth [OF assms(1)])
  qed
qed

lemma inverse_permutation_distinct:
  assumes "distinct p" and "set p = {0..<n}"
  shows "distinct (inverse_permutation p)"
proof -
  note inv = inverse_permutation_nth [OF assms]
  show ?thesis
    unfolding distinct_conv_nth
  proof (intro allI impI)
    fix i j
    assume "i < length (inverse_permutation p)" "j < length (inverse_permutation p)" "i \<noteq> j"
    then have "i < n" "j < n" by (simp_all add: inv(1))
    then have "p ! (inverse_permutation p ! i) = i" "p ! (inverse_permutation p ! j) = j"
      by (simp_all add: inv(3))
    with \<open>i \<noteq> j\<close> show "inverse_permutation p ! i \<noteq> inverse_permutation p ! j"
      by metis
  qed
qed

lemma index_of_inverse_permutation:
  assumes "distinct p" and "set p = {0..<n}" and "k < n"
  shows "index_of k (inverse_permutation p) = p ! k"
proof -
  note inv = inverse_permutation_nth [OF assms(1,2)]
  have len: "length p = n" by (rule permutation_length [OF assms(1,2)])
  from assms(3) len have "p ! k \<in> set p" by simp
  with assms(2) have "p ! k < n" by simp
  then have "index_of (inverse_permutation p ! (p ! k)) (inverse_permutation p) = p ! k"
    by (intro index_of_nth inverse_permutation_distinct [OF assms(1,2)]) (simp add: inv(1))
  then show ?thesis by (simp add: inv(4) [OF assms(3)])
qed


subsection \<open>The round trip\<close>

lemma np_transpose_permutation:
  assumes "distinct p" and "length p = length (nd_shape a)"
    and "\<And>j. j < length p \<Longrightarrow> p ! j < length (nd_shape a)"
  shows "np_transpose a p =
     Inr \<lparr>nd_shape = map ((!) (nd_shape a)) p,
          nd_data =
            map (\<lambda>idx. nd_data a ! ravel (nd_shape a)
                   (map (\<lambda>j. idx ! index_of j p) [0..<length p]))
              (indices (map ((!) (nd_shape a)) p))\<rparr>"
proof -
  have "list_all (\<lambda>k. k < length (nd_shape a)) p"
    using assms(3) by (auto simp: list_all_length)
  with assms(1,2) show ?thesis by (simp add: np_transpose_def)
qed

lemma np_transpose_wellformed:
  assumes "np_transpose a p = Inr t"
  shows "wellformed t"
  using assms
  by (auto simp: np_transpose_def wellformed_def length_indices split: if_splits)

lemma np_transpose_inverse:
  assumes wf: "wellformed a"
    and dist: "distinct p"
    and axes: "set p = {0..<length (nd_shape a)}"
    and t: "np_transpose a p = Inr t"
  shows "np_transpose t (inverse_permutation p) = Inr a"
proof -
  let ?s = "nd_shape a"
  let ?n = "length ?s"
  let ?q = "inverse_permutation p"
  let ?s' = "map ((!) ?s) p"
  let ?F = "\<lambda>idx. nd_data a ! ravel ?s (map (\<lambda>j. idx ! index_of j p) [0..<length p])"
  note inv = inverse_permutation_nth [OF dist axes]
  have len: "length p = ?n" by (rule permutation_length [OF dist axes])
  have p_less: "p ! j < ?n" if "j < ?n" for j
  proof -
    from that len have "p ! j \<in> set p" by simp
    with axes show ?thesis by simp
  qed
  have "np_transpose a p = Inr \<lparr>nd_shape = ?s', nd_data = map ?F (indices ?s')\<rparr>"
    by (rule np_transpose_permutation) (simp_all add: dist len p_less)
  with t have t_eq: "t = \<lparr>nd_shape = ?s', nd_data = map ?F (indices ?s')\<rparr>" by simp
  have t_shape: "nd_shape t = ?s'" and t_data: "nd_data t = map ?F (indices ?s')"
    by (simp_all add: t_eq)
  have back_shape: "map ((!) ?s') ?q = ?s"
  proof (rule nth_equalityI)
    show "length (map ((!) ?s') ?q) = length ?s" by (simp add: inv(1))
  next
    fix j
    assume "j < length (map ((!) ?s') ?q)"
    then have j: "j < ?n" by (simp add: inv(1))
    then show "map ((!) ?s') ?q ! j = ?s ! j"
      by (simp add: inv(1) inv(2) inv(3) len)
  qed
  have back_data:
    "map (\<lambda>idx. nd_data t ! ravel ?s' (map (\<lambda>j. idx ! index_of j ?q) [0..<length ?q]))
       (indices ?s) = nd_data a"
    (is "map ?G (indices ?s) = _")
  proof -
    have "?G idx = nd_data a ! ravel ?s idx" if idx: "list_all2 (<) idx ?s" for idx
    proof -
      from idx have idx_len: "length idx = ?n" by (simp add: list_all2_lengthD)
      let ?src = "map (\<lambda>j. idx ! index_of j ?q) [0..<length ?q]"
      have src: "?src = map (\<lambda>j. idx ! (p ! j)) [0..<?n]"
        by (simp add: inv(1) index_of_inverse_permutation [OF dist axes])
      have src_bounds: "list_all2 (<) ?src ?s'"
        unfolding src list_all2_conv_all_nth
      proof (intro conjI allI impI)
        show "length (map (\<lambda>j. idx ! (p ! j)) [0..<?n]) = length ?s'" by (simp add: len)
      next
        fix j
        assume "j < length (map (\<lambda>j. idx ! (p ! j)) [0..<?n])"
        then have j: "j < ?n" by simp
        from idx p_less [OF j] have "idx ! (p ! j) < ?s ! (p ! j)"
          by (simp add: list_all2_conv_all_nth)
        with j show "map (\<lambda>j. idx ! (p ! j)) [0..<?n] ! j < ?s' ! j"
          by (simp add: len)
      qed
      have again: "map (\<lambda>j. ?src ! index_of j p) [0..<length p] = idx"
      proof (rule nth_equalityI)
        show "length (map (\<lambda>j. ?src ! index_of j p) [0..<length p]) = length idx"
          by (simp add: len idx_len)
      next
        fix j
        assume "j < length (map (\<lambda>j. ?src ! index_of j p) [0..<length p])"
        then have j: "j < ?n" by (simp add: len)
        with axes have in_p: "j \<in> set p" by simp
        have pos: "index_of j p < ?n"
          using index_of_less [OF in_p] by (simp add: len)
        from j pos show "map (\<lambda>j. ?src ! index_of j p) [0..<length p] ! j = idx ! j"
          unfolding src by (simp add: len nth_index_of [OF in_p])
      qed
      have "?G idx = map ?F (indices ?s') ! ravel ?s' ?src"
        by (simp only: t_data)
      also have "\<dots> = ?F (indices ?s' ! ravel ?s' ?src)"
        using ravel_less [OF src_bounds] by (simp add: length_indices)
      also have "\<dots> = ?F ?src"
        by (simp only: indices_ravel [OF src_bounds])
      also have "\<dots> = nd_data a ! ravel ?s idx"
        by (simp only: again)
      finally show ?thesis .
    qed
    then have "map ?G (indices ?s) = map (\<lambda>idx. nd_data a ! ravel ?s idx) (indices ?s)"
      by (intro map_cong refl)
        (metis in_set_conv_nth indices_in_bounds length_indices)
    then show ?thesis by (simp only: data_by_index [OF wf])
  qed
  have "np_transpose t ?q =
     Inr \<lparr>nd_shape = map ((!) (nd_shape t)) ?q,
          nd_data =
            map (\<lambda>idx. nd_data t ! ravel (nd_shape t)
                   (map (\<lambda>j. idx ! index_of j ?q) [0..<length ?q]))
              (indices (map ((!) (nd_shape t)) ?q))\<rparr>"
    by (rule np_transpose_permutation)
      (simp_all add: inverse_permutation_distinct [OF dist axes] inv(1) inv(2) t_shape len)
  also have "\<dots> = Inr \<lparr>nd_shape = ?s, nd_data = nd_data a\<rparr>"
    by (simp only: t_shape back_shape back_data)
  finally show ?thesis by simp
qed

lemma as_dimensions_Int64: "as_dimensions (map Int64 dims) = Some dims"
  by (induction dims) simp_all

lemma np_reshape_own_shape:
  assumes "wellformed t"
  shows "np_reshape \<lparr>nd_shape = dims, nd_data = nd_data t\<rparr> (map Int64 (nd_shape t)) = Inr t"
  using assms by (simp add: np_reshape_def as_dimensions_Int64 wellformed_def)

lemma np_prod_nonempty: "ds \<noteq> [] \<Longrightarrow> np_prod ds = Int64 (prod_list ds)"
  by (cases ds) simp_all

lemma prod_list_take_drop: "prod_list (take k ds) * prod_list (drop k ds) = prod_list ds"
  by (metis append_take_drop_id prod_list.append)

lemma block_matrixify_result:
  assumes wf: "wellformed a"
    and nonempty: "idcs1 \<noteq> []" "idcs2 \<noteq> []"
    and dist: "distinct (idcs1 @ idcs2)"
    and axes: "set (idcs1 @ idcs2) = {0..<length (nd_shape a)}"
  shows "\<exists>t. np_transpose a (idcs1 @ idcs2) = Inr t
    \<and> block_matrixify a idcs1 idcs2 =
        Inr (\<lparr>nd_shape = [prod_list (take (length idcs1) (nd_shape t)),
                          prod_list (drop (length idcs1) (nd_shape t))],
              nd_data = nd_data t\<rparr>,
             (idcs1 @ idcs2, nd_shape t))"
proof -
  let ?p = "idcs1 @ idcs2"
  have len: "length ?p = length (nd_shape a)" by (rule permutation_length [OF dist axes])
  have p_less: "?p ! j < length (nd_shape a)" if "j < length ?p" for j
  proof -
    from that have "?p ! j \<in> set ?p" by (rule nth_mem)
    with axes show ?thesis by simp
  qed
  obtain t where t: "np_transpose a ?p = Inr t"
    using np_transpose_permutation [OF dist len p_less] by blast
  have wf_t: "wellformed t" by (rule np_transpose_wellformed [OF t])
  have t_shape: "nd_shape t = map ((!) (nd_shape a)) ?p"
    using t np_transpose_permutation [OF dist len p_less] by simp
  then have t_len: "length (nd_shape t) = length idcs1 + length idcs2" by simp
  from nonempty t_len have "take (length idcs1) (nd_shape t) \<noteq> []"
    and "drop (length idcs1) (nd_shape t) \<noteq> []"
    by (auto simp: take_eq_Nil)
  then have prods: "np_prod (take (length idcs1) (nd_shape t))
        = Int64 (prod_list (take (length idcs1) (nd_shape t)))"
      "np_prod (drop (length idcs1) (nd_shape t))
        = Int64 (prod_list (drop (length idcs1) (nd_shape t)))"
    by (simp_all add: np_prod_nonempty)
  have "block_matrixify a idcs1 idcs2 =
        Inr (\<lparr>nd_shape = [prod_list (take (length idcs1) (nd_shape t)),
                          prod_list (drop (length idcs1) (nd_shape t))],
              nd_data = nd_data t\<rparr>,
             (idcs1 @ idcs2, nd_shape t))"
    using wf_t
    by (simp add: block_matrixify_def t np_shape_def prods np_reshape_def
        prod_list_take_drop wellformed_def Let_def)
  with t show ?thesis by blast
qed

text \<open>
  The round trip of claim C6 for two groups that are not empty. For every array and
  every two non-empty lists of axes that are disjoint and together hold every axis once,
  \<open>block_dematrixify\<close> applied to the result of \<open>block_matrixify\<close> returns the array.
\<close>

theorem matrixify_roundtrip_restores:
  assumes wf: "wellformed a"
    and nonempty: "idcs1 \<noteq> []" "idcs2 \<noteq> []"
    and dist: "distinct (idcs1 @ idcs2)"
    and axes: "set (idcs1 @ idcs2) = {0..<length (nd_shape a)}"
  shows "matrixify_roundtrip a idcs1 idcs2 = Inr a"
proof -
  from block_matrixify_result [OF assms] obtain t where
    t: "np_transpose a (idcs1 @ idcs2) = Inr t"
    and m: "block_matrixify a idcs1 idcs2 =
        Inr (\<lparr>nd_shape = [prod_list (take (length idcs1) (nd_shape t)),
                          prod_list (drop (length idcs1) (nd_shape t))],
              nd_data = nd_data t\<rparr>,
             (idcs1 @ idcs2, nd_shape t))"
    by blast
  have wf_t: "wellformed t" by (rule np_transpose_wellformed [OF t])
  have "matrixify_roundtrip a idcs1 idcs2 = np_transpose t (inverse_permutation (idcs1 @ idcs2))"
    by (simp add: matrixify_roundtrip_def m block_dematrixify_def np_reshape_own_shape [OF wf_t])
  also have "\<dots> = Inr a"
    by (rule np_transpose_inverse [OF wf dist axes t])
  finally show ?thesis .
qed

theorem matrixify_roundtrip_restores_witness:
  "wellformed \<lparr>nd_shape = [2, 3, 2], nd_data = [1, 2, 3, 4, 5, 6, 7, 8, 9, 10, 11, 12 :: int]\<rparr>
   \<and> [2, 0] \<noteq> [] \<and> [1 :: nat] \<noteq> [] \<and> distinct ([2, 0] @ [1 :: nat])
   \<and> set ([2, 0] @ [1 :: nat])
       = {0..<length (nd_shape \<lparr>nd_shape = [2, 3, 2],
                                nd_data = [1, 2, 3, 4, 5, 6, 7, 8, 9, 10, 11, 12 :: int]\<rparr>)}
   \<and> matrixify_roundtrip
        \<lparr>nd_shape = [2, 3, 2], nd_data = [1, 2, 3, 4, 5, 6, 7, 8, 9, 10, 11, 12 :: int]\<rparr> [2, 0] [1]
       = Inr \<lparr>nd_shape = [2, 3, 2], nd_data = [1, 2, 3, 4, 5, 6, 7, 8, 9, 10, 11, 12]\<rparr>"
proof -
  let ?a = "\<lparr>nd_shape = [2, 3, 2], nd_data = [1, 2, 3, 4, 5, 6, 7, 8, 9, 10, 11, 12 :: int]\<rparr>"
  have wf: "wellformed ?a" by (simp add: wellformed_def)
  have ne: "[2, 0] \<noteq> ([] :: nat list)" "[1 :: nat] \<noteq> []" by simp_all
  have dist: "distinct ([2, 0] @ [1 :: nat])" by simp
  have axes: "set ([2, 0] @ [1 :: nat]) = {0..<length (nd_shape ?a)}" by auto
  from matrixify_roundtrip_restores [OF wf ne dist axes] wf ne dist axes
  show ?thesis by blast
qed

text \<open>
  Claim C6 at the failing input. The array has one axis, the first group is empty and
  the second holds the axis: the lists are disjoint and cover the axes. The product of
  the empty tuple of dimensions is the float \<open>1.0\<close>, and \<open>np.reshape\<close> raises \<open>TypeError\<close>
  on it: \<open>block_matrixify\<close> returns no matrix, and there is no round trip.
\<close>

theorem block_matrixify_empty_group:
  "block_matrixify \<lparr>nd_shape = [2], nd_data = [1, 2 :: int]\<rparr> [] [0]
     = Inl (TypeError ''float object cannot be interpreted as an integer'')
   \<and> matrixify_roundtrip \<lparr>nd_shape = [2], nd_data = [1, 2 :: int]\<rparr> [] [0]
     = Inl (TypeError ''float object cannot be interpreted as an integer'')"
  by (simp add: matrixify_roundtrip_def block_matrixify_def np_transpose_def np_shape_def
      np_reshape_def)


section \<open>Theorems: \<open>get_backend\<close>\<close>

text \<open>
  Claim C4 at the failing input. For a non-abelian symmetry the kind \<open>'nonabelian'\<close> is
  selected (or given by the caller), but the table's key is \<open>'non_abelian'\<close>: the lookup
  raises \<open>KeyError\<close>, where the claim (and the \<open>None\<close> entries of the table) promise
  \<open>NotImplementedError\<close>.
\<close>

theorem get_backend_nonabelian_KeyError:
  "get_backend SU2Symmetry ''numpy'' None initial_state = (Inl (KeyError ''nonabelian''), initial_state)
   \<and> get_backend SU2Symmetry ''numpy'' (Some ''nonabelian'') initial_state
       = (Inl (KeyError ''nonabelian''), initial_state)
   \<and> select_symmetry_backend SU2Symmetry None = ''nonabelian''"
  by (simp add: get_backend_def select_symmetry_backend_def backend_lookup_def no_symmetry_def)

text \<open>The parts of claim C4 that hold: the selection of the kind, and
  \<open>NotImplementedError\<close> for the placeholder block backends of the two implemented
  kinds. Every call that resolves to the kind \<open>'nonabelian'\<close> raises \<open>KeyError\<close>.\<close>

lemma select_symmetry_backend_auto:
  "select_symmetry_backend symmetry None =
     (if symmetry = no_symmetry then ''no_symmetry''
      else if is_abelian symmetry then ''abelian'' else ''nonabelian'')"
  by (simp add: select_symmetry_backend_def)

lemma get_backend_placeholder_NotImplemented:
  assumes "select_symmetry_backend symmetry symmetry_backend = kind"
    and "kind = ''no_symmetry'' \<or> kind = ''abelian''"
    and "block_backend = ''tensorflow'' \<or> block_backend = ''jax'' \<or> block_backend = ''tpu''"
  shows "get_backend symmetry block_backend symmetry_backend s =
     (Inl (NotImplementedError (''Backend not implemented '' @ kind @ '' & '' @ block_backend)), s)"
  using assms by (auto simp: get_backend_def backend_lookup_def)

lemma get_backend_nonabelian_any:
  assumes "select_symmetry_backend symmetry symmetry_backend = ''nonabelian''"
    and "block_backend \<in> set [''numpy'', ''torch'', ''tensorflow'', ''jax'', ''cpu'', ''gpu'', ''tpu'']"
  shows "get_backend symmetry block_backend symmetry_backend s = (Inl (KeyError ''nonabelian''), s)"
  using assms by (auto simp: get_backend_def backend_lookup_def)

lemma get_backend_resolve:
  "get_backend symmetry block_backend symmetry_backend s =
     (case resolve_backend symmetry block_backend symmetry_backend of
        Inl e \<Rightarrow> (Inl e, s)
      | Inr (key, cls) \<Rightarrow>
          (case map_of (instantiated_backends s) key of
             None \<Rightarrow>
               (Inr \<lparr>backend_class = cls, backend_options = snd (snd key), backend_id = next_ident s\<rparr>,
                s\<lparr>instantiated_backends := instantiated_backends s
                    @ [(key, \<lparr>backend_class = cls, backend_options = snd (snd key),
                               backend_id = next_ident s\<rparr>)],
                  next_ident := Suc (next_ident s)\<rparr>)
           | Some backend \<Rightarrow> (Inr backend, s)))"
proof -
  define bad_block where
    "bad_block \<longleftrightarrow> block_backend \<notin> set [''numpy'', ''torch'', ''tensorflow'', ''jax'', ''cpu'', ''gpu'', ''tpu'']"
  define kind where "kind = select_symmetry_backend symmetry symmetry_backend"
  define bad_kind where "bad_kind \<longleftrightarrow> kind \<notin> set [''no_symmetry'', ''abelian'', ''nonabelian'']"
  define by_kind where "by_kind = map_of backend_lookup kind"
  have factory: "get_backend symmetry block_backend symmetry_backend s =
     (if bad_block then (Inl AssertionError, s)
      else if bad_kind then (Inl AssertionError, s)
      else
        (case by_kind of
           None \<Rightarrow> (Inl (KeyError kind), s)
         | Some by_block \<Rightarrow>
             (case map_of by_block block_backend of
                None \<Rightarrow> (Inl (KeyError block_backend), s)
              | Some None \<Rightarrow>
                  (Inl (NotImplementedError
                     (''Backend not implemented '' @ kind @ '' & '' @ block_backend)), s)
              | Some (Some (cls, kwargs)) \<Rightarrow>
                  (case map_of (instantiated_backends s) (kind, block_backend, kwargs) of
                     None \<Rightarrow>
                       (Inr \<lparr>backend_class = cls, backend_options = kwargs, backend_id = next_ident s\<rparr>,
                        s\<lparr>instantiated_backends := instantiated_backends s
                            @ [((kind, block_backend, kwargs),
                                \<lparr>backend_class = cls, backend_options = kwargs,
                                   backend_id = next_ident s\<rparr>)],
                          next_ident := Suc (next_ident s)\<rparr>)
                   | Some backend \<Rightarrow> (Inr backend, s)))))"
    by (simp only: get_backend_def Let_def bad_block_def kind_def bad_kind_def by_kind_def)
  have resolved: "resolve_backend symmetry block_backend symmetry_backend =
     (if bad_block then Inl AssertionError
      else if bad_kind then Inl AssertionError
      else
        (case by_kind of
           None \<Rightarrow> Inl (KeyError kind)
         | Some by_block \<Rightarrow>
             (case map_of by_block block_backend of
                None \<Rightarrow> Inl (KeyError block_backend)
              | Some None \<Rightarrow>
                  Inl (NotImplementedError
                     (''Backend not implemented '' @ kind @ '' & '' @ block_backend))
              | Some (Some (cls, kwargs)) \<Rightarrow> Inr ((kind, block_backend, kwargs), cls))))"
    by (simp only: resolve_backend_def Let_def bad_block_def kind_def bad_kind_def by_kind_def)
  show ?thesis
    unfolding factory resolved by (simp split: option.splits)
qed

lemma resolve_backend_same_key:
  assumes "select_symmetry_backend symmetry2 symmetry_backend2
             = select_symmetry_backend symmetry1 symmetry_backend1"
  shows "resolve_backend symmetry2 block_backend symmetry_backend2
           = resolve_backend symmetry1 block_backend symmetry_backend1"
  by (simp only: resolve_backend_def assms)

lemma get_backend_Inr_cached:
  assumes "get_backend symmetry block_backend symmetry_backend s = (Inr b, s1)"
  shows "\<exists>key cls. resolve_backend symmetry block_backend symmetry_backend = Inr (key, cls)
           \<and> map_of (instantiated_backends s1) key = Some b"
  using assms unfolding get_backend_resolve
  by (auto simp: map_add_def split: sum.splits option.splits)

lemma get_backend_hit:
  assumes "resolve_backend symmetry block_backend symmetry_backend = Inr (key, cls)"
    and "map_of (instantiated_backends s) key = Some b"
  shows "get_backend symmetry block_backend symmetry_backend s = (Inr b, s)"
  unfolding get_backend_resolve by (simp add: assms)

lemma get_backend_step:
  assumes "get_backend symmetry block_backend symmetry_backend s = (r, s')"
  shows "s' = s \<or> (\<exists>key b. map_of (instantiated_backends s) key = None
           \<and> backend_id b = next_ident s
           \<and> s' = s\<lparr>instantiated_backends := instantiated_backends s @ [(key, b)],
                    next_ident := Suc (next_ident s)\<rparr>)"
proof (cases "resolve_backend symmetry block_backend symmetry_backend")
  case (Inl e)
  with assms show ?thesis unfolding get_backend_resolve by simp
next
  case (Inr entry)
  obtain key cls where entry: "entry = (key, cls)" by (cases entry)
  show ?thesis
  proof (cases "map_of (instantiated_backends s) key")
    case None
    let ?b = "\<lparr>backend_class = cls, backend_options = snd (snd key), backend_id = next_ident s\<rparr>"
    from assms have "s' = s\<lparr>instantiated_backends := instantiated_backends s @ [(key, ?b)],
                    next_ident := Suc (next_ident s)\<rparr>"
      unfolding get_backend_resolve by (simp add: Inr entry None)
    moreover have "backend_id ?b = next_ident s" by simp
    ultimately show ?thesis using None by blast
  next
    case (Some b)
    with assms show ?thesis unfolding get_backend_resolve by (simp add: Inr entry)
  qed
qed

lemma get_backend_keeps_entries:
  assumes "map_of (instantiated_backends s) key = Some b"
  shows "map_of (instantiated_backends (snd (get_backend symmetry block_backend symmetry_backend s))) key = Some b"
proof -
  obtain r s' where call: "get_backend symmetry block_backend symmetry_backend s = (r, s')"
    by (cases "get_backend symmetry block_backend symmetry_backend s")
  from get_backend_step [OF call] show ?thesis
  proof (elim disjE exE conjE)
    assume "s' = s"
    with assms show ?thesis by (simp add: call)
  next
    fix key' b'
    assume "s' = s\<lparr>instantiated_backends := instantiated_backends s @ [(key', b')],
                    next_ident := Suc (next_ident s)\<rparr>"
    with assms show ?thesis by (simp add: call map_add_def)
  qed
qed

lemma get_backend_calls_keep_entries:
  assumes "map_of (instantiated_backends s) key = Some b"
  shows "map_of (instantiated_backends (get_backend_calls calls s)) key = Some b"
  using assms
proof (induction calls arbitrary: s)
  case Nil
  then show ?case by simp
next
  case (Cons call calls)
  obtain symmetry block_backend symmetry_backend where call: "call = (symmetry, block_backend, symmetry_backend)"
    by (cases call)
  show ?case unfolding call get_backend_calls.simps
    by (rule Cons.IH) (rule get_backend_keeps_entries [OF Cons.prems])
qed

lemma get_backend_one_instance_per_key:
  assumes "one_instance_per_key s"
  shows "one_instance_per_key (snd (get_backend symmetry block_backend symmetry_backend s))"
proof -
  obtain r s' where call: "get_backend symmetry block_backend symmetry_backend s = (r, s')"
    by (cases "get_backend symmetry block_backend symmetry_backend s")
  from get_backend_step [OF call] show ?thesis
  proof (elim disjE exE conjE)
    assume "s' = s"
    with assms show ?thesis by (simp add: call)
  next
    fix key b
    assume fresh: "map_of (instantiated_backends s) key = None"
      and ident: "backend_id b = next_ident s"
      and s': "s' = s\<lparr>instantiated_backends := instantiated_backends s @ [(key, b)],
                    next_ident := Suc (next_ident s)\<rparr>"
    from fresh have "key \<notin> set (map fst (instantiated_backends s))"
      by (simp add: map_of_eq_None_iff)
    with assms ident show ?thesis
      by (simp add: call s' one_instance_per_key_def)
  qed
qed

lemma get_backend_calls_one_instance_per_key:
  assumes "one_instance_per_key s"
  shows "one_instance_per_key (get_backend_calls calls s)"
  using assms
proof (induction calls arbitrary: s)
  case Nil
  then show ?case by simp
next
  case (Cons call calls)
  obtain symmetry block_backend symmetry_backend where call: "call = (symmetry, block_backend, symmetry_backend)"
    by (cases call)
  show ?case unfolding call get_backend_calls.simps
    by (rule Cons.IH) (rule get_backend_one_instance_per_key [OF Cons.prems])
qed

text \<open>
  Claim C5. Let a call of \<open>get_backend\<close> return the instance \<open>b\<close>. After any number of
  further calls, a call that resolves to the same key (the same kind after selection,
  the same block backend name; the options are those of the table entry) returns this
  very \<open>b\<close>, identity included, and constructs nothing: the state is unchanged. If the
  cache held one instance per key before the first call, it does so ever after.
\<close>

theorem get_backend_reuses_instance:
  assumes first: "get_backend symmetry1 block_backend1 symmetry_backend1 s = (Inr b, s1)"
    and same_kind: "select_symmetry_backend symmetry2 symmetry_backend2
                      = select_symmetry_backend symmetry1 symmetry_backend1"
    and same_block: "block_backend2 = block_backend1"
    and inv: "one_instance_per_key s"
  shows "get_backend symmetry2 block_backend2 symmetry_backend2 (get_backend_calls calls s1)
           = (Inr b, get_backend_calls calls s1)
         \<and> one_instance_per_key (get_backend_calls calls s1)"
proof -
  from get_backend_Inr_cached [OF first] obtain key cls where
    resolved: "resolve_backend symmetry1 block_backend1 symmetry_backend1 = Inr (key, cls)"
    and stored: "map_of (instantiated_backends s1) key = Some b"
    by blast
  let ?s2 = "get_backend_calls calls s1"
  have later: "map_of (instantiated_backends ?s2) key = Some b"
    by (rule get_backend_calls_keep_entries [OF stored])
  have "resolve_backend symmetry2 block_backend2 symmetry_backend2 = Inr (key, cls)"
    unfolding same_block resolve_backend_same_key [OF same_kind] by (rule resolved)
  then have again: "get_backend symmetry2 block_backend2 symmetry_backend2 ?s2 = (Inr b, ?s2)"
    using later by (rule get_backend_hit)
  have "one_instance_per_key s1"
    using get_backend_one_instance_per_key [OF inv, of symmetry1 block_backend1 symmetry_backend1]
    by (simp add: first)
  then have "one_instance_per_key ?s2"
    by (rule get_backend_calls_one_instance_per_key)
  with again show ?thesis by simp
qed

theorem get_backend_reuses_instance_witness:
  "get_backend NoSymmetry ''numpy'' None initial_state
     = (Inr \<lparr>backend_class = NoSymmetryNumpyBackend, backend_options = [], backend_id = 0\<rparr>,
        \<lparr>instantiated_backends =
           [((''no_symmetry'', ''numpy'', []),
             \<lparr>backend_class = NoSymmetryNumpyBackend, backend_options = [], backend_id = 0\<rparr>)],
         next_ident = 1\<rparr>)
   \<and> select_symmetry_backend U1Symmetry (Some ''no_symmetry'') = select_symmetry_backend NoSymmetry None
   \<and> one_instance_per_key initial_state
   \<and> fst (get_backend U1Symmetry ''numpy'' (Some ''no_symmetry'')
        (get_backend_calls [(U1Symmetry, ''gpu'', None), (NoSymmetry, ''cpu'', None)]
          \<lparr>instantiated_backends =
             [((''no_symmetry'', ''numpy'', []),
               \<lparr>backend_class = NoSymmetryNumpyBackend, backend_options = [], backend_id = 0\<rparr>)],
           next_ident = 1\<rparr>))
       = Inr \<lparr>backend_class = NoSymmetryNumpyBackend, backend_options = [], backend_id = 0\<rparr>"
proof -
  have first: "get_backend NoSymmetry ''numpy'' None initial_state
     = (Inr \<lparr>backend_class = NoSymmetryNumpyBackend, backend_options = [], backend_id = 0\<rparr>,
        \<lparr>instantiated_backends =
           [((''no_symmetry'', ''numpy'', []),
             \<lparr>backend_class = NoSymmetryNumpyBackend, backend_options = [], backend_id = 0\<rparr>)],
         next_ident = 1\<rparr>)"
    by (simp add: get_backend_def select_symmetry_backend_def backend_lookup_def no_symmetry_def
        initial_state_def Let_def)
  have same: "select_symmetry_backend U1Symmetry (Some ''no_symmetry'') = select_symmetry_backend NoSymmetry None"
    by (simp add: select_symmetry_backend_def no_symmetry_def)
  have inv: "one_instance_per_key initial_state"
    by (simp add: one_instance_per_key_def initial_state_def)
  have "fst (get_backend U1Symmetry ''numpy'' (Some ''no_symmetry'')
        (get_backend_calls [(U1Symmetry, ''gpu'', None), (NoSymmetry, ''cpu'', None)]
          \<lparr>instantiated_backends =
             [((''no_symmetry'', ''numpy'', []),
               \<lparr>backend_class = NoSymmetryNumpyBackend, backend_options = [], backend_id = 0\<rparr>)],
           next_ident = 1\<rparr>))
       = Inr \<lparr>backend_class = NoSymmetryNumpyBackend, backend_options = [], backend_id = 0\<rparr>"
    using get_backend_reuses_instance [OF first same refl inv,
      of "[(U1Symmetry, ''gpu'', None), (NoSymmetry, ''cpu'', None)]"]
    by (simp only: fst_conv)
  with first same inv show ?thesis by (intro conjI)
qed

section \<open>Theorems: sparse operators\<close>

lemma UNIV_axis3: "(UNIV :: axis3 set) = {X0, X1, X2}"
  using axis3.exhaust by auto

lemma sum_axis3: "(\<Sum>i\<in>(UNIV :: axis3 set). f i) = f X0 + f X1 + f X2"
  by (simp add: UNIV_axis3 add.assoc)

lemma inner_tensor_sub: "inner a (tensor_sub b c) = inner a b - inner a c"
  by (simp add: inner_def tensor_sub_def right_diff_distrib sum_subtractf)

lemma inner_tensor_scale: "inner a (tensor_scale c b) = c * inner a b"
  by (simp add: inner_def tensor_scale_def sum_distrib_left mult.left_commute)

lemma inner_zero_right: "inner a (\<lambda>i. 0) = 0"
  by (simp add: inner_def)

lemma tensor_sub_self_scaled: "tensor_sub a (tensor_scale 1 a) = (\<lambda>i. 0)"
  by (simp add: tensor_sub_def tensor_scale_def)

lemma tensor_scale_zero: "tensor_scale 0 a = (\<lambda>i. 0)"
  by (simp add: tensor_scale_def)

lemma tensor_sub_zero: "tensor_sub a (\<lambda>i. 0) = a"
  by (simp add: tensor_sub_def)

lemma tensor_add_zero_left: "tensor_add (\<lambda>i. 0) a = a"
  by (simp add: tensor_add_def)

lemma tensor_add_zero_right: "tensor_add a (\<lambda>i. 0) = a"
  by (simp add: tensor_add_def)

lemma inner_unit_vec: "inner (unit_vec k) v = v k"
  by (cases k) (simp_all add: inner_def unit_vec_def sum_axis3)

lemma unit_vec_apply: "unit_vec k i = (if i = k then 1 else 0)"
  by (simp add: unit_vec_def)

text \<open>
  Claim C3. \<open>matvec\<close> of a shifted operator is \<open>H.matvec(v) + shift * v\<close>, as tensors and
  entry by entry, for every operator \<open>H\<close>, every scalar \<open>shift\<close> (2 among them) and every
  vector \<open>v\<close> of the shape.
\<close>

theorem shifted_matvec:
  "matvec (ShiftedTenpyLinearOperator H shift) v = tensor_add (matvec H v) (tensor_scale shift v)
   \<and> (\<forall>i. matvec (ShiftedTenpyLinearOperator H shift) v i = matvec H v i + shift * v i)
   \<and> (\<forall>i. matvec (ShiftedTenpyLinearOperator H 2) v i = matvec H v i + 2 * v i)"
  by (simp add: tensor_add_def tensor_scale_def)

lemma projected_matvec_single:
  "matvec (ProjectedTenpyLinearOperator H [o'] (Some p)) v =
     tensor_add
       (tensor_sub (matvec H (tensor_sub v (tensor_scale (inner o' v) o')))
          (tensor_scale (inner o' (matvec H (tensor_sub v (tensor_scale (inner o' v) o')))) o'))
       (tensor_scale (p * inner o' v) o')"
  by (simp add: Let_def)

text \<open>
  Claim C2, as the code has it. Let \<open>o\<close> have unit norm, let \<open>gram_schmidt\<close> leave \<open>[o]\<close>
  as it is, and let \<open>H\<close> map the zero vector to itself, as every linear operator does.
  Then \<open>matvec(o) = 5 * o\<close>. For \<open>v\<close> orthogonal to \<open>o\<close>, \<open>matvec(v)\<close> is \<open>H.matvec(v)\<close>
  without its component along \<open>o\<close>; it is \<open>H.matvec(v)\<close> when \<open>H.matvec(v)\<close> is
  orthogonal to \<open>o\<close> too.
\<close>

theorem projected_matvec_single_vector:
  assumes gs: "gram_schmidt [o'] = [o']"
    and unit: "inner o' o' = 1"
    and linear: "matvec H (\<lambda>i. 0) = (\<lambda>i. 0)"
  shows "matvec (ProjectedTenpyLinearOperator_init gram_schmidt H [o'] (Some 5)) o' = tensor_scale 5 o'
    \<and> (inner o' v = 0 \<longrightarrow>
         matvec (ProjectedTenpyLinearOperator_init gram_schmidt H [o'] (Some 5)) v
           = tensor_sub (matvec H v) (tensor_scale (inner o' (matvec H v)) o'))
    \<and> (inner o' v = 0 \<longrightarrow> inner o' (matvec H v) = 0 \<longrightarrow>
         matvec (ProjectedTenpyLinearOperator_init gram_schmidt H [o'] (Some 5)) v = matvec H v)"
proof (intro conjI impI)
  show "matvec (ProjectedTenpyLinearOperator_init gram_schmidt H [o'] (Some 5)) o' = tensor_scale 5 o'"
    unfolding ProjectedTenpyLinearOperator_init_def gs projected_matvec_single unit
    by (simp add: tensor_sub_self_scaled linear inner_zero_right tensor_scale_zero
        tensor_sub_zero tensor_add_zero_left)
next
  assume orth: "inner o' v = 0"
  show "matvec (ProjectedTenpyLinearOperator_init gram_schmidt H [o'] (Some 5)) v
           = tensor_sub (matvec H v) (tensor_scale (inner o' (matvec H v)) o')"
    unfolding ProjectedTenpyLinearOperator_init_def gs projected_matvec_single orth
    by (simp add: tensor_scale_zero tensor_sub_zero tensor_add_zero_right)
next
  assume orth: "inner o' v = 0" and stays: "inner o' (matvec H v) = 0"
  show "matvec (ProjectedTenpyLinearOperator_init gram_schmidt H [o'] (Some 5)) v = matvec H v"
    unfolding ProjectedTenpyLinearOperator_init_def gs projected_matvec_single orth
    by (simp add: tensor_scale_zero tensor_sub_zero tensor_add_zero_right stays)
qed

theorem projected_matvec_single_vector_witness:
  "id [unit_vec X2] = [unit_vec X2]
   \<and> inner (unit_vec X2) (unit_vec X2) = 1
   \<and> matvec (TenpyLinearOperator swap01) (\<lambda>i. 0) = (\<lambda>i. 0)
   \<and> matvec (ProjectedTenpyLinearOperator_init id (TenpyLinearOperator swap01) [unit_vec X2] (Some 5))
        (unit_vec X2) = tensor_scale 5 (unit_vec X2)
   \<and> inner (unit_vec X2) (unit_vec X1) = 0
   \<and> inner (unit_vec X2) (matvec (TenpyLinearOperator swap01) (unit_vec X1)) = 0
   \<and> matvec (ProjectedTenpyLinearOperator_init id (TenpyLinearOperator swap01) [unit_vec X2] (Some 5))
        (unit_vec X1) = matvec (TenpyLinearOperator swap01) (unit_vec X1)"
proof -
  have gs: "id [unit_vec X2] = [unit_vec X2]" by simp
  have unit: "inner (unit_vec X2) (unit_vec X2) = 1"
    by (simp add: inner_unit_vec unit_vec_apply)
  have linear: "matvec (TenpyLinearOperator swap01) (\<lambda>i. 0) = (\<lambda>i. 0)"
    by (simp add: swap01_def fun_eq_iff split: axis3.splits)
  have orth: "inner (unit_vec X2) (unit_vec X1) = 0"
    by (simp add: inner_unit_vec unit_vec_apply)
  have stays: "inner (unit_vec X2) (matvec (TenpyLinearOperator swap01) (unit_vec X1)) = 0"
    by (simp add: inner_unit_vec unit_vec_apply swap01_def)
  from projected_matvec_single_vector [where gram_schmidt = id and o' = "unit_vec X2"
      and H = "TenpyLinearOperator swap01" and v = "unit_vec X1", OF gs unit linear]
    gs unit linear orth stays
  show ?thesis by blast
qed

text \<open>
  Claim C2 as stated fails. \<open>H\<close> exchanges the first two entries, \<open>o\<close> is the first unit
  vector and \<open>v\<close> the second: \<open>o\<close> has unit norm, \<open>v\<close> is orthogonal to \<open>o\<close>, the first
  entry of \<open>H.matvec(v)\<close> is 1 and the first entry of \<open>matvec(v)\<close> is 0.
\<close>

theorem projected_matvec_counterexample:
  "inner (unit_vec X0) (unit_vec X0) = 1
   \<and> inner (unit_vec X0) (unit_vec X1) = 0
   \<and> matvec (TenpyLinearOperator swap01) (unit_vec X1) X0 = 1
   \<and> matvec (ProjectedTenpyLinearOperator_init id (TenpyLinearOperator swap01) [unit_vec X0] (Some 5))
        (unit_vec X1) X0 = 0"
  by (simp add: ProjectedTenpyLinearOperator_init_def projected_matvec_single inner_unit_vec
      tensor_add_def tensor_sub_def tensor_scale_def swap01_def unit_vec_apply)

lemma project_again_fold: "project_again ortho_vecs res = fold remove_component ortho_vecs res"
  by (induction ortho_vecs arbitrary: res) (simp_all add: remove_component_def)

lemma remove_component_commute:
  assumes "inner a b = 0" and "inner b a = 0"
  shows "remove_component a (remove_component b res) = remove_component b (remove_component a res)"
  unfolding remove_component_def inner_tensor_sub inner_tensor_scale assms
  by (auto simp: tensor_sub_def tensor_scale_def fun_eq_iff)

lemma project_again_rev:
  assumes "\<forall>i<length ortho_vecs. \<forall>j<length ortho_vecs.
             inner (ortho_vecs ! i) (ortho_vecs ! j) = (if i = j then 1 else 0)"
  shows "project_again (rev ortho_vecs) res = project_again ortho_vecs res"
proof -
  have "remove_component y \<circ> remove_component x = remove_component x \<circ> remove_component y"
    if "x \<in> set ortho_vecs" and "y \<in> set ortho_vecs" for x y
  proof (cases "x = y")
    case True
    then show ?thesis by simp
  next
    case False
    from that obtain i j where i: "i < length ortho_vecs" "ortho_vecs ! i = x"
      and j: "j < length ortho_vecs" "ortho_vecs ! j = y"
      by (auto simp: in_set_conv_nth)
    with False have "i \<noteq> j" by auto
    with assms i j have "inner x y = 0" and "inner y x = 0" by auto
    then show ?thesis
      by (simp add: fun_eq_iff remove_component_commute)
  qed
  then have "fold remove_component (rev ortho_vecs) = fold remove_component ortho_vecs"
    by (rule fold_rev)
  then show ?thesis by (simp add: project_again_fold)
qed

text \<open>
  Claim C7. When the stored \<open>ortho_vecs\<close> are pairwise orthonormal, \<open>matvec\<close> (second loop
  over the reversed list) and its variant with the second loop in forward order give
  the same tensor, for every operator, penalty and input vector.
\<close>

theorem projected_matvec_order_irrelevant:
  assumes "\<forall>i<length ortho_vecs. \<forall>j<length ortho_vecs.
             inner (ortho_vecs ! i) (ortho_vecs ! j) = (if i = j then 1 else 0)"
  shows "matvec (ProjectedTenpyLinearOperator H ortho_vecs penalty) v
           = matvec_forward_order H ortho_vecs penalty v"
  by (simp add: matvec_forward_order_def project_again_rev [OF assms])

theorem projected_matvec_order_irrelevant_witness:
  "inner (unit_vec X0) (unit_vec X0) = 1 \<and> inner (unit_vec X0) (unit_vec X1) = 0
   \<and> inner (unit_vec X1) (unit_vec X0) = 0 \<and> inner (unit_vec X1) (unit_vec X1) = 1
   \<and> matvec (ProjectedTenpyLinearOperator (TenpyLinearOperator swap01) [unit_vec X0, unit_vec X1] (Some 5))
         (\<lambda>i. 1)
       = matvec_forward_order (TenpyLinearOperator swap01) [unit_vec X0, unit_vec X1] (Some 5) (\<lambda>i. 1)"
proof -
  have orthonormal: "\<forall>i<length [unit_vec X0, unit_vec X1]. \<forall>j<length [unit_vec X0, unit_vec X1].
      inner ([unit_vec X0, unit_vec X1] ! i) ([unit_vec X0, unit_vec X1] ! j) = (if i = j then 1 else 0)"
    by (simp add: All_less_Suc inner_unit_vec unit_vec_apply)
  have "matvec (ProjectedTenpyLinearOperator (TenpyLinearOperator swap01) [unit_vec X0, unit_vec X1] (Some 5))
         (\<lambda>i. 1)
       = matvec_forward_order (TenpyLinearOperator swap01) [unit_vec X0, unit_vec X1] (Some 5) (\<lambda>i. 1)"
    by (rule projected_matvec_order_irrelevant [OF orthonormal])
  then show ?thesis
    by (simp add: inner_unit_vec unit_vec_apply)
qed

lemma unwrap_loop_step:
  assumes "0 < n"
  shows "unwrap_loop call_unwrapped n parent =
     (case call_unwrapped parent of
        Inr p \<Rightarrow> unwrap_loop call_unwrapped (n - 1) p
      | Inl AttributeError \<Rightarrow> Inr parent
      | Inl e \<Rightarrow> Inl e)"
  using assms by (cases n) (auto split: sum.splits error.splits)

lemma unwrap_loop_exhausted:
  assumes "\<forall>q. \<exists>q'. call_unwrapped q = Inr q'"
  shows "unwrap_loop call_unwrapped n parent
           = Inl (ValueError ''maximum recursion depth for unwrapping reached'')"
proof (induction n arbitrary: parent)
  case 0
  show ?case by simp
next
  case (Suc n)
  from assms obtain q' where "call_unwrapped parent = Inr q'" by blast
  then show ?case by (simp add: Suc.IH)
qed

lemma unwrapped_no_attribute:
  assumes "original_operator self = None"
  shows "unwrapped depth self recursive = Inl AttributeError"
  using assms by (cases depth) simp_all

lemma original_operator_innermost: "original_operator (innermost w) = None"
  by (induction w) simp_all

lemma innermost_parent:
  assumes "original_operator w = Some parent"
  shows "innermost w = innermost parent" and "wrapper_count w = Suc (wrapper_count parent)"
  using assms by (cases w; simp)+

lemma innermost_plain:
  assumes "original_operator w = None"
  shows "innermost w = w" and "wrapper_count w = 0"
  using assms by (cases w; simp)+

lemma unwrapped_innermost:
  assumes "original_operator w = Some parent" and "wrapper_count w \<le> depth"
  shows "unwrapped depth w True = Inr (innermost w)"
  using assms
proof (induction depth arbitrary: w parent)
  case 0
  then show ?case by (simp add: innermost_parent(2))
next
  case (Suc depth)
  from Suc.prems have count: "wrapper_count parent \<le> depth"
    by (simp add: innermost_parent(2))
  have loop: "unwrapped (Suc depth) w True
      = unwrap_loop (\<lambda>p. unwrapped depth p True) 10000 parent"
    using Suc.prems(1) by simp
  show ?case
  proof (cases "original_operator parent")
    case None
    then have "unwrap_loop (\<lambda>p. unwrapped depth p True) 10000 parent = Inr parent"
      by (simp add: unwrap_loop_step unwrapped_no_attribute)
    with loop show ?thesis
      by (simp add: innermost_parent(1) [OF Suc.prems(1)] innermost_plain(1) [OF None])
  next
    case (Some grandparent)
    from Suc.IH [OF Some count] have inner_call: "unwrapped depth parent True = Inr (innermost parent)" .
    have "unwrapped depth (innermost parent) True = Inl AttributeError"
      by (rule unwrapped_no_attribute) (rule original_operator_innermost)
    with inner_call have "unwrap_loop (\<lambda>p. unwrapped depth p True) 10000 parent = Inr (innermost parent)"
      by (simp add: unwrap_loop_step)
    with loop show ?thesis
      by (simp add: innermost_parent(1) [OF Suc.prems(1)])
  qed
qed

lemma wrapper_count_shifted_chain: "wrapper_count (shifted_chain n base) = n + wrapper_count base"
  by (induction n) simp_all

lemma innermost_shifted_chain: "innermost (shifted_chain n base) = innermost base"
  by (induction n) simp_all

lemma original_operator_shifted_chain:
  "original_operator (shifted_chain (Suc n) base) = Some (shifted_chain n base)"
  by simp

lemma unwrapped_too_deep:
  assumes "original_operator w = Some parent" and "depth < wrapper_count w"
  shows "unwrapped depth w True = Inl RecursionError"
  using assms
proof (induction depth arbitrary: w parent)
  case 0
  then show ?case by simp
next
  case (Suc depth)
  from Suc.prems have count: "depth < wrapper_count parent"
    by (simp add: innermost_parent(2))
  then obtain grandparent where gp: "original_operator parent = Some grandparent"
    using innermost_plain(2) [of parent] by (cases "original_operator parent") auto
  from Suc.IH [OF gp count] have "unwrapped depth parent True = Inl RecursionError" .
  then have "unwrap_loop (\<lambda>p. unwrapped depth p True) 10000 parent = Inl RecursionError"
    by (simp add: unwrap_loop_step)
  with Suc.prems(1) show ?case by simp
qed

text \<open>
  \<open>unwrapped(recursive=True)\<close> on a wrapper. When the number of wrappers of the chain is
  within \<open>depth\<close>, the nesting of calls the interpreter allows, the result is the
  operator at the end of the chain, which is not a wrapper; on a longer chain the call
  ends in \<open>RecursionError\<close>. It never ends in \<open>ValueError\<close>.
\<close>

theorem unwrapped_on_wrapper:
  assumes "original_operator w \<noteq> None"
  shows "unwrapped depth w True
           = (if wrapper_count w \<le> depth then Inr (innermost w) else Inl RecursionError)
         \<and> original_operator (innermost w) = None"
proof -
  from assms obtain parent where parent: "original_operator w = Some parent" by auto
  show ?thesis
  proof (cases "wrapper_count w \<le> depth")
    case True
    with unwrapped_innermost [OF parent True] show ?thesis
      by (simp add: original_operator_innermost)
  next
    case False
    then have "depth < wrapper_count w" by simp
    with unwrapped_too_deep [OF parent] False show ?thesis
      by (simp add: original_operator_innermost)
  qed
qed

theorem unwrapped_on_wrapper_witness:
  "original_operator (ShiftedTenpyLinearOperator
       (ProjectedTenpyLinearOperator (TenpyLinearOperator swap01) [unit_vec X0] None) 2) \<noteq> None
   \<and> unwrapped 2 (ShiftedTenpyLinearOperator
       (ProjectedTenpyLinearOperator (TenpyLinearOperator swap01) [unit_vec X0] None) 2) True
       = Inr (TenpyLinearOperator swap01)
   \<and> unwrapped 1 (ShiftedTenpyLinearOperator
       (ProjectedTenpyLinearOperator (TenpyLinearOperator swap01) [unit_vec X0] None) 2) True
       = Inl RecursionError
   \<and> original_operator (TenpyLinearOperator swap01) = None"
  using unwrapped_on_wrapper [of "ShiftedTenpyLinearOperator
       (ProjectedTenpyLinearOperator (TenpyLinearOperator swap01) [unit_vec X0] None) 2" 2]
    unwrapped_on_wrapper [of "ShiftedTenpyLinearOperator
       (ProjectedTenpyLinearOperator (TenpyLinearOperator swap01) [unit_vec X0] None) 2" 1]
  by simp

text \<open>
  Claim C9 at the failing input. The chain has 1001 wrappers and the interpreter allows
  1000 nested calls (two wrappers and one call in the second example): every call
  \<open>parent.unwrapped()\<close> unwraps recursively, so the chain is followed by nested calls and
  not by the iterations of the loop, and \<open>unwrapped\<close> ends in \<open>RecursionError\<close>: it returns
  neither the innermost operator nor the \<open>ValueError\<close> of the loop bound.
\<close>

theorem unwrapped_deep_chain_RecursionError:
  "unwrapped 1000 (shifted_chain 1001 (TenpyLinearOperator swap01)) True = Inl RecursionError
   \<and> wrapper_count (shifted_chain 1001 (TenpyLinearOperator swap01)) = 1001
   \<and> unwrapped 1 (ShiftedTenpyLinearOperator
         (ShiftedTenpyLinearOperator (TenpyLinearOperator swap01) 1) 1) True = Inl RecursionError"
proof -
  have chain: "shifted_chain 1001 (TenpyLinearOperator swap01)
      = shifted_chain (Suc 1000) (TenpyLinearOperator swap01)"
    by simp
  have "unwrapped 1000 (shifted_chain (Suc 1000) (TenpyLinearOperator swap01)) True
      = Inl RecursionError"
    by (rule unwrapped_too_deep [OF original_operator_shifted_chain])
      (simp add: wrapper_count_shifted_chain)
  moreover have "unwrapped 1 (ShiftedTenpyLinearOperator
         (ShiftedTenpyLinearOperator (TenpyLinearOperator swap01) 1) 1) True = Inl RecursionError"
    by (rule unwrapped_too_deep [where parent = "ShiftedTenpyLinearOperator (TenpyLinearOperator swap01) 1"])
      simp_all
  ultimately show ?thesis
    by (simp only: chain wrapper_count_shifted_chain) simp
qed

section \<open>Theorems: constructing a \<open>TensorLinearOperator\<close>\<close>

text \<open>
  Claim C10 at the failing input, which is every input. \<open>TensorLinearOperator\<close> does
  not override \<open>to_matrix\<close>, so the call \<open>TensorLinearOperator(tensor, which_leg)\<close>
  raises \<open>TypeError\<close> for every tensor, before the checks of \<open>__init__\<close> run: a tensor
  with more than two legs, or with legs that cannot be contracted, does not get its
  \<open>ValueError\<close>.
\<close>

theorem TensorLinearOperator_new_TypeError:
  "TensorLinearOperator_new can_contract get_idx tensor which_leg
     = Inl (TypeError
        ''Cannot instantiate abstract class TensorLinearOperator with abstract method to_matrix'')
   \<and> abstractmethods_left TenpyLinearOperator_abstractmethods TensorLinearOperator_methods
     = [''to_matrix'']"
  by (simp add: TensorLinearOperator_new_def abstractmethods_left_def
      TenpyLinearOperator_abstractmethods_def TensorLinearOperator_methods_def)


text \<open>
  The checks of \<open>__init__\<close> themselves, run on an instance (of a subclass that implements
  \<open>to_matrix\<close>): a tensor with more than two legs, and a tensor with two legs that
  \<open>can_contract_with\<close> rejects, make \<open>__init__\<close> raise \<open>ValueError\<close>.
\<close>

theorem TensorLinearOperator_init_rejects:
  "(num_legs tensor > 2 \<longrightarrow>
      TensorLinearOperator_init can_contract get_idx tensor which_leg
        = Inl (ValueError ''Expected a two-leg tensor''))
   \<and> (num_legs tensor = 2 \<longrightarrow> \<not> can_contract (legs tensor ! 0) (legs tensor ! 1) \<longrightarrow>
      TensorLinearOperator_init can_contract get_idx tensor which_leg
        = Inl (ValueError ''Expected contractible legs''))"
  by (simp add: TensorLinearOperator_init_def num_legs_def py_index_def)

theorem TensorLinearOperator_init_rejects_witness:
  "num_legs \<lparr>legs = [leg_b, leg_b_dual, leg_b], labels = [Some ''a'', Some ''b'', None], dtype = float64\<rparr> > 2
   \<and> TensorLinearOperator_init can_contract_with get_leg_idx
        \<lparr>legs = [leg_b, leg_b_dual, leg_b], labels = [Some ''a'', Some ''b'', None], dtype = float64\<rparr>
        (LegIndex (- 1))
       = Inl (ValueError ''Expected a two-leg tensor'')
   \<and> num_legs \<lparr>legs = [leg_b, leg_b], labels = [Some ''a'', Some ''b''], dtype = float64\<rparr> = 2
   \<and> \<not> can_contract_with
         (legs \<lparr>legs = [leg_b, leg_b], labels = [Some ''a'', Some ''b''], dtype = float64\<rparr> ! 0)
         (legs \<lparr>legs = [leg_b, leg_b], labels = [Some ''a'', Some ''b''], dtype = float64\<rparr> ! 1)
   \<and> TensorLinearOperator_init can_contract_with get_leg_idx
        \<lparr>legs = [leg_b, leg_b], labels = [Some ''a'', Some ''b''], dtype = float64\<rparr> (LegIndex (- 1))
       = Inl (ValueError ''Expected contractible legs'')"
  using TensorLinearOperator_init_rejects [of
      "\<lparr>legs = [leg_b, leg_b_dual, leg_b], labels = [Some ''a'', Some ''b'', None], dtype = float64\<rparr>"
      can_contract_with get_leg_idx "LegIndex (- 1)"]
    TensorLinearOperator_init_rejects [of
      "\<lparr>legs = [leg_b, leg_b], labels = [Some ''a'', Some ''b''], dtype = float64\<rparr>"
      can_contract_with get_leg_idx "LegIndex (- 1)"]
  by (simp add: num_legs_def can_contract_with_def leg_b_def)

lemma TensorLinearOperator_init_accepts:
  "TensorLinearOperator_init can_contract_with get_leg_idx
     \<lparr>legs = [leg_b, leg_b_dual], labels = [Some ''a'', Some ''b''], dtype = float64\<rparr> (LegIndex (- 1))
   = Inr \<lparr>tlo_which_leg = 1, tlo_other_leg = 0,
          tlo_tensor = \<lparr>legs = [leg_b, leg_b_dual], labels = [Some ''a'', Some ''b''], dtype = float64\<rparr>,
          tlo_vector_shape = ([leg_b], Some ''a''), tlo_dtype = float64\<rparr>"
  by (simp add: TensorLinearOperator_init_def num_legs_def py_index_def can_contract_with_def
      get_leg_idx_def leg_b_def leg_b_dual_def)

end
